theory Spec2Isabelle
  imports Complex_Main "HOL-Library.Multiset" "HOL-Library.Word"
begin

section \<open>The X Windows screen adapter (platform/CXWindowsScreen.cpp)\<close>

text \<open>
  A shallow embedding of \<^verbatim>\<open>CXWindowsScreen\<close>: its timer queue, its event
  pre-dispatch, its clipboard entry points, its cursor queries and its I/O error handler.
  Pointers are natural numbers with \<open>NULL = 0\<close>, or options where the code tests a pointer
  against \<open>NULL\<close>. A \<^verbatim>\<open>double\<close> of the timer code is the real number it stands
  for; comparisons are exact and a subtraction rounds its result to a double. Log calls
  are left out.
\<close>

subsection \<open>CXWindowsScreen::CTimer\<close>

datatype error = AssertionFailure | OutOfRange

definition NULL :: nat where
  "NULL = 0"

record CTimer =
  m_job :: nat
  m_timeout :: real
  m_time :: real

text \<open>
  The subtraction of two \<^verbatim>\<open>double\<close>s, as IEEE 754 binary64 does it: the exact
  difference is rounded to the nearest number with 53 significant bits, a tie going to
  the one whose last bit is even. \<open>ulp_exponent x\<close> is the exponent of the spacing of
  the doubles around \<open>x\<close>; below \<open>2 powr - 1022\<close> the spacing stays \<open>2 powr - 1074\<close>.
  Infinities and NaN are outside the model: the results stay below the largest double.
\<close>

definition round_half_even :: "real \<Rightarrow> int" where
  "round_half_even m =
     (let f = \<lfloor>m\<rfloor>
      in if m - of_int f < 1 / 2 then f
         else if 1 / 2 < m - of_int f then f + 1
         else if even f then f else f + 1)"

definition ulp_exponent :: "real \<Rightarrow> int" where
  "ulp_exponent x = max (\<lfloor>log 2 \<bar>x\<bar>\<rfloor> - 52) (- 1074)"

definition binary64 :: "real \<Rightarrow> real" where
  "binary64 x =
     (if x = 0 then 0
      else of_int (round_half_even (x / 2 powr of_int (ulp_exponent x))) *
           2 powr of_int (ulp_exponent x))"

definition double_sub :: "real \<Rightarrow> real \<Rightarrow> real" where
  "double_sub a b = binary64 (a - b)"

text \<open>\<^verbatim>\<open>CTimer::reset\<close>, \<^verbatim>\<open>operator-=\<close>, \<^verbatim>\<open>operator double\<close>, \<^verbatim>\<open>operator<\<close>
  and \<^verbatim>\<open>getJob\<close>.\<close>

definition reset :: "CTimer \<Rightarrow> CTimer" where
  "reset t = t\<lparr>m_time := m_timeout t\<rparr>"

definition minus_assign :: "CTimer \<Rightarrow> real \<Rightarrow> CTimer" where
  "minus_assign t dt = t\<lparr>m_time := double_sub (m_time t) dt\<rparr>"

definition to_double :: "CTimer \<Rightarrow> real" where
  "to_double t = m_time t"

definition less_timer :: "CTimer \<Rightarrow> CTimer \<Rightarrow> bool" where
  "less_timer a b = (m_time a < m_time b)"

definition getJob :: "CTimer \<Rightarrow> nat" where
  "getJob t = m_job t"

text \<open>The constructor: both assertions, then \<^verbatim>\<open>reset()\<close>. A failed assertion aborts.\<close>

definition CTimer_new :: "nat \<Rightarrow> real \<Rightarrow> error + CTimer" where
  "CTimer_new job timeout =
     (if job = NULL then Inl AssertionFailure
      else if \<not> 0 < timeout then Inl AssertionFailure
      else Inr (reset \<lparr>m_job = job, m_timeout = timeout, m_time = 0\<rparr>))"

subsection \<open>The timer queue\<close>

text \<open>
  Modelled from the spec: the class of \<^verbatim>\<open>m_timers\<close> (\<^verbatim>\<open>CTimerPriorityQueue\<close>) is
  declared outside this file. The spec keeps the entries "in a min-ordering structure
  keyed by remaining", and the main loop reads \<^verbatim>\<open>top()\<close> as the time to the next
  timer. The queue is the list of its entries: \<open>pq_top\<close> is an entry of least
  \<open>m_time\<close> (the first such), \<open>pq_pop\<close> removes it, \<open>pq_push\<close> adds an entry,
  \<open>pq_swap\<close> takes over a container, and \<^verbatim>\<open>begin()..end()\<close> runs over the list.
  No statement below depends on which of several least entries is on top.
\<close>

fun pq_top :: "CTimer list \<Rightarrow> CTimer option" where
  "pq_top [] = None"
| "pq_top (t # q) =
     (case pq_top q of
        None \<Rightarrow> Some t
      | Some u \<Rightarrow> if m_time u < m_time t then Some u else Some t)"

definition pq_pop :: "CTimer list \<Rightarrow> CTimer list" where
  "pq_pop q = (case pq_top q of None \<Rightarrow> q | Some t \<Rightarrow> remove1 t q)"

definition pq_push :: "CTimer \<Rightarrow> CTimer list \<Rightarrow> CTimer list" where
  "pq_push t q = q @ [t]"

definition pq_swap :: "CTimer list \<Rightarrow> CTimer list" where
  "pq_swap tmp = tmp"

subsection \<open>The screen object\<close>

text \<open>
  The members of \<^verbatim>\<open>CXWindowsScreen\<close> that the functions below read or write. The type
  \<open>'c\<close> is the clipboard class \<^verbatim>\<open>CXWindowsClipboard\<close>, which is declared outside this
  file; \<open>m_clipboard\<close> is the array of \<^verbatim>\<open>kClipboardEnd\<close> pointers, so its length is
  \<^verbatim>\<open>kClipboardEnd\<close> and \<open>None\<close> is a \<open>NULL\<close> entry. \<open>m_timersMutex\<close> counts the
  \<^verbatim>\<open>CLock\<close> objects alive on the timer mutex in the running thread: it is what a
  sequential run can see of the lock. \<open>m_mutex\<close> counts likewise for the display mutex.
  A function that takes the display lock once, on entry, and gives it back on return is
  modelled without it; \<^verbatim>\<open>getCursorPos\<close> and \<^verbatim>\<open>getCursorCenter\<close>, of which the
  first calls the second with the lock held, take and release it. \<open>m_stopwatch\<close> is the
  member \<^verbatim>\<open>m_time\<close> of the screen, a stopwatch: it holds the instant of its last
  reset.
\<close>

record 'c CXWindowsScreen =
  m_display :: "nat option"
  m_root :: nat
  m_stop :: bool
  m_window :: nat
  m_x :: "32 word"
  m_y :: "32 word"
  m_w :: "32 word"
  m_h :: "32 word"
  m_clipboard :: "'c option list"
  m_atomScreensaver :: nat
  m_timers :: "CTimer list"
  m_timersMutex :: nat
  m_stopwatch :: real
  m_mutex :: nat

definition lock_timers :: "'c CXWindowsScreen \<Rightarrow> 'c CXWindowsScreen" where
  "lock_timers s = s\<lparr>m_timersMutex := m_timersMutex s + 1\<rparr>"

definition unlock_timers :: "'c CXWindowsScreen \<Rightarrow> 'c CXWindowsScreen" where
  "unlock_timers s = s\<lparr>m_timersMutex := m_timersMutex s - 1\<rparr>"

text \<open>The constructor (lines 80 to 104), for \<open>n\<close> clipboard slots, at instant \<open>now\<close>.\<close>

definition CXWindowsScreen_new :: "nat \<Rightarrow> real \<Rightarrow> 'c CXWindowsScreen" where
  "CXWindowsScreen_new n now =
     \<lparr>m_display = None, m_root = 0, m_stop = False, m_window = 0,
      m_x = 0, m_y = 0, m_w = 0, m_h = 0,
      m_clipboard = replicate n None, m_atomScreensaver = 0,
      m_timers = [], m_timersMutex = 0, m_stopwatch = now, m_mutex = 0\<rparr>"

subsection \<open>addTimer, removeTimer, removeTimerNoLock\<close>

definition removeTimerNoLock :: "nat \<Rightarrow> 'c CXWindowsScreen \<Rightarrow> 'c CXWindowsScreen" where
  "removeTimerNoLock job s =
     (let tmp = filter (\<lambda>index. getJob index \<noteq> job) (m_timers s)
      in s\<lparr>m_timers := pq_swap tmp\<rparr>)"

definition addTimer :: "nat \<Rightarrow> real \<Rightarrow> 'c CXWindowsScreen \<Rightarrow> error + 'c CXWindowsScreen" where
  "addTimer job timeout s =
     (let s1 = removeTimerNoLock job (lock_timers s)
      in case CTimer_new job timeout of
           Inl e \<Rightarrow> Inl e
         | Inr t \<Rightarrow> Inr (unlock_timers (s1\<lparr>m_timers := pq_push t (m_timers s1)\<rparr>)))"

definition removeTimer :: "nat \<Rightarrow> 'c CXWindowsScreen \<Rightarrow> 'c CXWindowsScreen" where
  "removeTimer job s = unlock_timers (removeTimerNoLock job (lock_timers s))"

subsection \<open>processTimers\<close>

text \<open>
  The loop of lines 642 to 648: while the top timer is at or below zero, save its job,
  reset a copy, pop the queue and push the copy. It runs forever on a timer whose timeout
  is not positive, so it is a partial function: \<open>None\<close> is no result. \<^verbatim>\<open>top()\<close> of an
  empty queue has no defined result either; the loop is entered with a non-empty queue
  and every pop is followed by a push.
\<close>

partial_function (option) fire_expired ::
  "CTimer list \<Rightarrow> nat list \<Rightarrow> (CTimer list \<times> nat list) option" where
  "fire_expired q jobs =
     (case pq_top q of
        None \<Rightarrow> None
      | Some timer \<Rightarrow>
          if to_double timer \<le> 0
          then fire_expired (pq_push (reset timer) (pq_pop q)) (jobs @ [getJob timer])
          else Some (q, jobs))"

text \<open>
  The block under the timer lock (lines 622 to 652), at instant \<open>now\<close>: the stopwatch
  reads \<open>now - m_stopwatch s\<close>. The result is whether the block ran to its end (it returns
  \<^verbatim>\<open>false\<close> from the function otherwise), the screen, and the saved jobs.
\<close>

definition processTimers_locked ::
  "real \<Rightarrow> 'c CXWindowsScreen \<Rightarrow> (bool \<times> 'c CXWindowsScreen \<times> nat list) option" where
  "processTimers_locked now s =
     (let s1 = lock_timers s;
          time = now - m_stopwatch s1
      in if m_timers s1 = [] \<or>
            (case pq_top (m_timers s1) of None \<Rightarrow> False | Some t \<Rightarrow> time < to_double t)
         then Some (False, unlock_timers s1, [])
         else
           (case fire_expired (map (\<lambda>index. minus_assign index time) (m_timers s1)) [] of
              None \<Rightarrow> None
            | Some (q, jobs) \<Rightarrow>
                Some (True, unlock_timers (s1\<lparr>m_timers := q, m_stopwatch := now\<rparr>), jobs)))"

text \<open>
  What a job's \<^verbatim>\<open>run()\<close> can do to the timers is to call \<^verbatim>\<open>addTimer\<close> and
  \<^verbatim>\<open>removeTimer\<close>, which return nothing to it: a job body is the list of its calls.
  \<open>run_jobs\<close> is the loop of lines 657 to 660; with every job it runs it records the
  lock count the job is started under.
\<close>

datatype timer_call = AddTimer nat real | RemoveTimer nat

fun run_call :: "timer_call \<Rightarrow> 'c CXWindowsScreen \<Rightarrow> error + 'c CXWindowsScreen" where
  "run_call (AddTimer job timeout) s = addTimer job timeout s"
| "run_call (RemoveTimer job) s = Inr (removeTimer job s)"

fun run_calls :: "timer_call list \<Rightarrow> 'c CXWindowsScreen \<Rightarrow> error + 'c CXWindowsScreen" where
  "run_calls [] s = Inr s"
| "run_calls (c # cs) s =
     (case run_call c s of Inl e \<Rightarrow> Inl e | Inr s' \<Rightarrow> run_calls cs s')"





subsection \<open>X events and the calls the screen makes\<close>

text \<open>
  Windows, atoms and timestamps are X resource numbers. \<open>None_X\<close>, \<open>CurrentTime\<close> and
  \<open>PropertyDelete\<close> are the constants \<^verbatim>\<open>None\<close>, \<^verbatim>\<open>CurrentTime\<close> and
  \<^verbatim>\<open>PropertyDelete\<close> of \<^verbatim>\<open>X11/X.h\<close>. An event carries the fields that
  \<^verbatim>\<open>onPreDispatch\<close> reads, in the order it reads them.
\<close>

definition None_X :: nat where
  "None_X = 0"

definition CurrentTime :: nat where
  "CurrentTime = 0"

definition PropertyDelete :: nat where
  "PropertyDelete = 1"

datatype XEvent =
    MappingNotify
  | SelectionClear nat nat
  | SelectionNotify nat nat
  | SelectionRequest nat nat nat nat nat nat
  | PropertyNotify nat nat nat nat
  | ClientMessage nat int int
  | DestroyNotify nat
  | OtherEvent nat

text \<open>
  The calls the screen makes on its collaborators, in the order it makes them: Xlib, the
  clipboard objects (by clipboard id), the receiver, the event handler and the screen
  saver. \<open>OnError\<close> carries the display pointer as it stands when the receiver is called.
\<close>

datatype clipboard_call =
    Lost nat
  | AddRequest nat nat nat nat nat
  | ProcessRequest nat nat nat
  | DestroyRequest nat
  | Open nat
  | Empty
  | Close
  | CopyFrom nat
  | CopyTo nat

datatype call =
    XRefreshKeyboardMapping
  | XDeleteProperty nat nat
  | GetCurrentTime nat
  | Clipboard nat clipboard_call
  | OnGrabClipboard nat
  | OnError "nat option"
  | OnScreensaver bool
  | OnPreDispatch XEvent
  | ScreenSaverOnPreDispatch XEvent

text \<open>
  The clipboard class \<^verbatim>\<open>CXWindowsClipboard\<close> and \<^verbatim>\<open>CClipboard::copy\<close> are declared
  outside this file: the screen's functions take their methods as a parameter. A method
  maps the clipboard object to its result and the object afterwards. \<open>copy_from ops d t c\<close>
  is \<^verbatim>\<open>CClipboard::copy(c, d, t)\<close>, into the clipboard object; \<open>copy_to ops c t d\<close> is
  \<^verbatim>\<open>CClipboard::copy(d, c, t)\<close>, out of it; \<open>'d\<close> is the caller's clipboard.
\<close>

record ('c, 'd) clipboard_ops =
  getWindow :: "'c \<Rightarrow> nat"
  getSelection :: "'c \<Rightarrow> nat"
  lost :: "nat \<Rightarrow> 'c \<Rightarrow> 'c"
  addRequest :: "nat \<Rightarrow> nat \<Rightarrow> nat \<Rightarrow> nat \<Rightarrow> nat \<Rightarrow> 'c \<Rightarrow> 'c"
  processRequest :: "nat \<Rightarrow> nat \<Rightarrow> nat \<Rightarrow> 'c \<Rightarrow> bool \<times> 'c"
  destroyRequest :: "nat \<Rightarrow> 'c \<Rightarrow> bool \<times> 'c"
  open_clipboard :: "nat \<Rightarrow> 'c \<Rightarrow> bool \<times> 'c"
  empty_clipboard :: "'c \<Rightarrow> 'c"
  close_clipboard :: "'c \<Rightarrow> 'c"
  copy_from :: "'d \<Rightarrow> nat \<Rightarrow> 'c \<Rightarrow> bool \<times> 'c"
  copy_to :: "'c \<Rightarrow> nat \<Rightarrow> 'd \<Rightarrow> bool \<times> 'd \<times> 'c"

definition kClipboardEnd :: "'c CXWindowsScreen \<Rightarrow> nat" where
  "kClipboardEnd s = length (m_clipboard s)"

definition set_clipboard :: "nat \<Rightarrow> 'c \<Rightarrow> 'c CXWindowsScreen \<Rightarrow> 'c CXWindowsScreen" where
  "set_clipboard cid c s = s\<lparr>m_clipboard := (m_clipboard s)[cid := Some c]\<rparr>"

subsection \<open>getClipboardID, processClipboardRequest, destroyClipboardRequest\<close>

definition getClipboardID :: "('c, 'd) clipboard_ops \<Rightarrow> nat \<Rightarrow> 'c CXWindowsScreen \<Rightarrow> nat" where
  "getClipboardID ops selection s =
     (case find (\<lambda>cid. case m_clipboard s ! cid of
                        None \<Rightarrow> False
                      | Some c \<Rightarrow> getSelection ops c = selection) [0..<kClipboardEnd s] of
        Some cid \<Rightarrow> cid
      | None \<Rightarrow> kClipboardEnd s)"

text \<open>The two loops "check every clipboard until one returns success", over the ids
  still to visit: a \<open>NULL\<close> entry is skipped, and the first success breaks the loop.\<close>

fun processClipboardRequest_loop ::
  "('c, 'd) clipboard_ops \<Rightarrow> nat \<Rightarrow> nat \<Rightarrow> nat \<Rightarrow> nat list \<Rightarrow> 'c CXWindowsScreen \<Rightarrow>
     'c CXWindowsScreen \<times> call list" where
  "processClipboardRequest_loop ops requestor time property [] s = (s, [])"
| "processClipboardRequest_loop ops requestor time property (cid # ids) s =
     (case m_clipboard s ! cid of
        None \<Rightarrow> processClipboardRequest_loop ops requestor time property ids s
      | Some c \<Rightarrow>
          (case processRequest ops requestor time property c of
             (True, c') \<Rightarrow>
               (set_clipboard cid c' s, [Clipboard cid (ProcessRequest requestor time property)])
           | (False, c') \<Rightarrow>
               (case processClipboardRequest_loop ops requestor time property ids
                       (set_clipboard cid c' s) of
                  (s', calls) \<Rightarrow>
                    (s', Clipboard cid (ProcessRequest requestor time property) # calls))))"

definition processClipboardRequest ::
  "('c, 'd) clipboard_ops \<Rightarrow> nat \<Rightarrow> nat \<Rightarrow> nat \<Rightarrow> 'c CXWindowsScreen \<Rightarrow>
     'c CXWindowsScreen \<times> call list" where
  "processClipboardRequest ops requestor time property s =
     processClipboardRequest_loop ops requestor time property [0..<kClipboardEnd s] s"

fun destroyClipboardRequest_loop ::
  "('c, 'd) clipboard_ops \<Rightarrow> nat \<Rightarrow> nat list \<Rightarrow> 'c CXWindowsScreen \<Rightarrow>
     'c CXWindowsScreen \<times> call list" where
  "destroyClipboardRequest_loop ops requestor [] s = (s, [])"
| "destroyClipboardRequest_loop ops requestor (cid # ids) s =
     (case m_clipboard s ! cid of
        None \<Rightarrow> destroyClipboardRequest_loop ops requestor ids s
      | Some c \<Rightarrow>
          (case destroyRequest ops requestor c of
             (True, c') \<Rightarrow> (set_clipboard cid c' s, [Clipboard cid (DestroyRequest requestor)])
           | (False, c') \<Rightarrow>
               (case destroyClipboardRequest_loop ops requestor ids (set_clipboard cid c' s) of
                  (s', calls) \<Rightarrow> (s', Clipboard cid (DestroyRequest requestor) # calls))))"

definition destroyClipboardRequest ::
  "('c, 'd) clipboard_ops \<Rightarrow> nat \<Rightarrow> 'c CXWindowsScreen \<Rightarrow> 'c CXWindowsScreen \<times> call list" where
  "destroyClipboardRequest ops requestor s =
     destroyClipboardRequest_loop ops requestor [0..<kClipboardEnd s] s"

subsection \<open>onPreDispatch\<close>

text \<open>
  \<open>handler\<close> is the answer of \<^verbatim>\<open>m_eventHandler->onPreDispatch\<close>. A case of the switch
  that ends in \<^verbatim>\<open>break\<close> goes on to \<open>pass_on\<close>: the screen saver has a go, then the
  event handler decides. The result is the returned flag, the screen and the calls made.
  The screen saver object and the display are taken as set up by \<^verbatim>\<open>open()\<close>.
\<close>

definition pass_on ::
  "(XEvent \<Rightarrow> bool) \<Rightarrow> XEvent \<Rightarrow> 'c CXWindowsScreen \<Rightarrow> call list \<Rightarrow>
     bool \<times> 'c CXWindowsScreen \<times> call list" where
  "pass_on handler xevent s calls =
     (handler xevent, s, calls @ [ScreenSaverOnPreDispatch xevent, OnPreDispatch xevent])"

definition onPreDispatch ::
  "('c, 'd) clipboard_ops \<Rightarrow> (XEvent \<Rightarrow> bool) \<Rightarrow> XEvent \<Rightarrow> 'c CXWindowsScreen \<Rightarrow>
     bool \<times> 'c CXWindowsScreen \<times> call list" where
  "onPreDispatch ops handler xevent s =
     (case xevent of
        MappingNotify \<Rightarrow> pass_on handler xevent s [XRefreshKeyboardMapping]
      | SelectionClear selection time \<Rightarrow>
          (let cid = getClipboardID ops selection s
           in if cid \<noteq> kClipboardEnd s
              then (True,
                    s\<lparr>m_clipboard :=
                        (m_clipboard s)[cid := map_option (lost ops time) (m_clipboard s ! cid)]\<rparr>,
                    [Clipboard cid (Lost time), OnGrabClipboard cid])
              else pass_on handler xevent s [])
      | SelectionNotify requestor property \<Rightarrow>
          (if property \<noteq> None_X then (True, s, [XDeleteProperty requestor property])
           else (True, s, []))
      | SelectionRequest owner requestor selection target time property \<Rightarrow>
          (let cid = getClipboardID ops selection s
           in if cid \<noteq> kClipboardEnd s
              then (True,
                    s\<lparr>m_clipboard :=
                        (m_clipboard s)[cid := map_option
                           (addRequest ops owner requestor target time property)
                           (m_clipboard s ! cid)]\<rparr>,
                    [Clipboard cid (AddRequest owner requestor target time property)])
              else pass_on handler xevent s [])
      | PropertyNotify window time atom state \<Rightarrow>
          (if state = PropertyDelete
           then (case processClipboardRequest ops window time atom s of
                   (s', calls) \<Rightarrow> (True, s', calls))
           else pass_on handler xevent s [])
      | ClientMessage message_type format l0 \<Rightarrow>
          (if message_type = m_atomScreensaver s \<or> format = 32
           then (True, s, [OnScreensaver (l0 \<noteq> 0)])
           else pass_on handler xevent s [])
      | DestroyNotify window \<Rightarrow>
          (case destroyClipboardRequest ops window s of
             (s', calls) \<Rightarrow> pass_on handler xevent s' calls)
      | OtherEvent type \<Rightarrow> pass_on handler xevent s [])"

subsection \<open>setClipboard and getClipboard\<close>

text \<open>
  \<open>getCurrentTime\<close> is the answer of \<^verbatim>\<open>CXWindowsUtil::getCurrentTime\<close> for a window.
  The caller's clipboard is a pointer: \<open>None\<close> is \<open>NULL\<close>. An id at or above
  \<^verbatim>\<open>kClipboardEnd\<close> indexes outside the array \<open>m_clipboard\<close>, which has no defined
  behaviour: it is the error \<open>OutOfRange\<close>.
\<close>

definition setClipboard ::
  "('c, 'd) clipboard_ops \<Rightarrow> (nat \<Rightarrow> nat) \<Rightarrow> nat \<Rightarrow> 'd option \<Rightarrow> 'c CXWindowsScreen \<Rightarrow>
     error + (bool \<times> 'c CXWindowsScreen \<times> call list)" where
  "setClipboard ops getCurrentTime cid clipboard s =
     (if \<not> cid < kClipboardEnd s then Inl OutOfRange
      else
        (case m_clipboard s ! cid of
           None \<Rightarrow> Inr (False, s, [])
         | Some c \<Rightarrow>
             (let timestamp = getCurrentTime (getWindow ops c)
              in case clipboard of
                   Some d \<Rightarrow>
                     (case copy_from ops d timestamp c of
                        (r, c') \<Rightarrow>
                          Inr (r, set_clipboard cid c' s,
                               [GetCurrentTime (getWindow ops c),
                                Clipboard cid (CopyFrom timestamp)]))
                 | None \<Rightarrow>
                     (case open_clipboard ops timestamp c of
                        (False, c') \<Rightarrow>
                          Inr (False, set_clipboard cid c' s,
                               [GetCurrentTime (getWindow ops c), Clipboard cid (Open timestamp)])
                      | (True, c') \<Rightarrow>
                          Inr (True,
                               set_clipboard cid
                                 (close_clipboard ops (empty_clipboard ops c')) s,
                               [GetCurrentTime (getWindow ops c), Clipboard cid (Open timestamp),
                                Clipboard cid Empty, Clipboard cid Close])))))"

definition getClipboard ::
  "('c, 'd) clipboard_ops \<Rightarrow> (nat \<Rightarrow> nat) \<Rightarrow> nat \<Rightarrow> 'd option \<Rightarrow> 'c CXWindowsScreen \<Rightarrow>
     error + (bool \<times> 'd \<times> 'c CXWindowsScreen \<times> call list)" where
  "getClipboard ops getCurrentTime cid clipboard s =
     (case clipboard of
        None \<Rightarrow> Inl AssertionFailure
      | Some d \<Rightarrow>
          if \<not> cid < kClipboardEnd s then Inl OutOfRange
          else
            (case m_clipboard s ! cid of
               None \<Rightarrow> Inr (False, d, s, [])
             | Some c \<Rightarrow>
                 (let timestamp = getCurrentTime (getWindow ops c)
                  in case copy_to ops c timestamp d of
                       (r, d', c') \<Rightarrow>
                         Inr (r, d', set_clipboard cid c' s,
                              [GetCurrentTime (getWindow ops c),
                               Clipboard cid (CopyTo timestamp)]))))"

subsection \<open>getRoot, getCursorPos, getCursorCenter\<close>

text \<open>
  The class of the display mutex is declared outside this file, so whether it is
  recursive is a parameter. \<open>lock_display\<close> is the constructor of a \<^verbatim>\<open>CLock\<close> on
  \<^verbatim>\<open>m_mutex\<close>: a thread that holds a mutex which is not recursive and locks it again
  waits for itself, and the call does not return (\<open>None\<close>). \<open>unlock_display\<close> is the
  destructor.
\<close>

definition lock_display :: "bool \<Rightarrow> 'c CXWindowsScreen \<Rightarrow> 'c CXWindowsScreen option" where
  "lock_display recursive_mutex s =
     (if 0 < m_mutex s \<and> \<not> recursive_mutex then None
      else Some (s\<lparr>m_mutex := m_mutex s + 1\<rparr>))"

definition unlock_display :: "'c CXWindowsScreen \<Rightarrow> 'c CXWindowsScreen" where
  "unlock_display s = s\<lparr>m_mutex := m_mutex s - 1\<rparr>"

text \<open>
  \<open>query\<close> is the answer of \<^verbatim>\<open>XQueryPointer\<close> on a root window: the pointer
  coordinates, or \<open>None\<close> when it returns \<^verbatim>\<open>False\<close>. Coordinates are \<^verbatim>\<open>SInt32\<close>;
  \<^verbatim>\<open>>> 1\<close> on them is the arithmetic shift. A call that returns gives the coordinates
  and the screen, with the lock released.
\<close>

definition getRoot :: "'c CXWindowsScreen \<Rightarrow> error + nat" where
  "getRoot s = (if m_display s = None then Inl AssertionFailure else Inr (m_root s))"

definition getCursorCenter ::
  "bool \<Rightarrow> 'c CXWindowsScreen \<Rightarrow>
     (error + ((32 word \<times> 32 word) \<times> 'c CXWindowsScreen)) option" where
  "getCursorCenter recursive_mutex s =
     (case lock_display recursive_mutex s of
        None \<Rightarrow> None
      | Some s1 \<Rightarrow>
          if m_display s1 = None then Some (Inl AssertionFailure)
          else Some (Inr ((m_x s1 + signed_drop_bit 1 (m_w s1),
                           m_y s1 + signed_drop_bit 1 (m_h s1)),
                          unlock_display s1)))"

definition getCursorPos ::
  "bool \<Rightarrow> (nat \<Rightarrow> (32 word \<times> 32 word) option) \<Rightarrow> 'c CXWindowsScreen \<Rightarrow>
     (error + ((32 word \<times> 32 word) \<times> 'c CXWindowsScreen)) option" where
  "getCursorPos recursive_mutex query s =
     (case lock_display recursive_mutex s of
        None \<Rightarrow> None
      | Some s1 \<Rightarrow>
          if m_display s1 = None then Some (Inl AssertionFailure)
          else
            (case getRoot s1 of
               Inl e \<Rightarrow> Some (Inl e)
             | Inr root_window \<Rightarrow>
                 (case query root_window of
                    Some (mx, my) \<Rightarrow> Some (Inr ((mx, my), unlock_display s1))
                  | None \<Rightarrow>
                      (case getCursorCenter recursive_mutex s1 of
                         None \<Rightarrow> None
                       | Some (Inl e) \<Rightarrow> Some (Inl e)
                       | Some (Inr (p, s2)) \<Rightarrow> Some (Inr (p, unlock_display s2))))))"

subsection \<open>ioErrorHandler\<close>

text \<open>
  The handler ends in \<^verbatim>\<open>exit(17)\<close> and never returns its \<^verbatim>\<open>int\<close>: a run of it
  ends in \<open>Exits\<close> with the exit status. \<open>s\<close> is the screen \<^verbatim>\<open>s_screen\<close> points to.
\<close>

datatype outcome = Returns int | Exits int

definition ioErrorHandler :: "'c CXWindowsScreen \<Rightarrow> 'c CXWindowsScreen \<times> call list \<times> outcome" where
  "ioErrorHandler s =
     (let s1 = s\<lparr>m_display := None\<rparr>
      in (s1, [OnError (m_display s1)], Exits 17))"

subsection \<open>A clipboard channel after the spec\<close>

text \<open>
  Modelled from the spec: the clipboard class is not part of this file. The channel is the
  spec's record \<open>ClipboardChannel\<close> (section 3) with its \<open>TransferRequest\<close>s, and the
  methods do what sections 4.2 and 4.3 say of them. Next to the spec's fields the channel
  holds the atom that names its selection, the \<open>content\<close> it has published (none when
  cleared) and whether the backend is \<open>refusing\<close> it ("if ownership cannot be asserted
  (backend refuses), setContent returns false without side effects").
  \<^item> \<open>lost\<close>: "mark channel Unowned".
  \<^item> \<open>addRequest\<close>: "enqueue a TransferRequest on the owning channel"; the entries are
    "uniquely keyed by (requestorWindow, targetProperty)".
  \<^item> \<open>processRequest\<close>: whether a request with this key is pending; the spec's data
    model holds no chunk count, and the chunks are left out.
  \<^item> \<open>destroyRequest\<close>: "purge any TransferRequests whose requestor window matches",
    silently; it reports whether there was one.
  \<^item> \<open>open_clipboard\<close>, \<open>empty_clipboard\<close>, \<open>close_clipboard\<close>: "open the channel,
    clear its content, close it", which "relinquishes ownership".
  \<^item> \<open>copy_from\<close>: "asserts ownership and publishes content"; \<open>copy_to\<close>: "copies out
    the currently available content".
\<close>

datatype ownership = Unowned | Owned

record TransferRequest =
  ownerWindow :: nat
  requestorWindow :: nat
  targetFormat :: nat
  timestamp :: nat
  property :: nat

record ClipboardChannel =
  channel_id :: nat
  nativeWindow :: nat
  selection_atom :: nat
  ownershipState :: ownership
  pendingRequests :: "TransferRequest list"
  content :: "string option"
  refusing :: bool

definition spec_ops :: "(ClipboardChannel, string option) clipboard_ops" where
  "spec_ops =
     \<lparr>getWindow = nativeWindow,
      getSelection = selection_atom,
      lost = (\<lambda>t c. c\<lparr>ownershipState := Unowned\<rparr>),
      addRequest = (\<lambda>owner requestor target t prop c.
        if list_ex (\<lambda>r. requestorWindow r = requestor \<and> property r = prop) (pendingRequests c)
        then c
        else c\<lparr>pendingRequests := pendingRequests c @
                 [\<lparr>ownerWindow = owner, requestorWindow = requestor, targetFormat = target,
                   timestamp = t, property = prop\<rparr>]\<rparr>),
      processRequest = (\<lambda>requestor t prop c.
        (list_ex (\<lambda>r. requestorWindow r = requestor \<and> property r = prop) (pendingRequests c),
         c)),
      destroyRequest = (\<lambda>requestor c.
        (list_ex (\<lambda>r. requestorWindow r = requestor) (pendingRequests c),
         c\<lparr>pendingRequests :=
             filter (\<lambda>r. requestorWindow r \<noteq> requestor) (pendingRequests c)\<rparr>)),
      open_clipboard = (\<lambda>t c. (\<not> refusing c, c)),
      empty_clipboard = (\<lambda>c. c\<lparr>ownershipState := Unowned, content := None\<rparr>),
      close_clipboard = (\<lambda>c. c),
      copy_from = (\<lambda>d t c.
        if refusing c then (False, c) else (True, c\<lparr>ownershipState := Owned, content := d\<rparr>)),
      copy_to = (\<lambda>c t d. if refusing c then (False, d, c) else (True, content c, c))\<rparr>"

section \<open>Properties\<close>

subsection \<open>Rounding to a double\<close>

text \<open>Rounding is monotone and odd, it is exact on the integers below \<open>2 ^ 53\<close>, and it
  sends both \<open>2 ^ 53 + 3\<close> and \<open>2 ^ 53 + 5\<close> to \<open>2 ^ 53 + 4\<close>.\<close>

lemma rhe_int [simp]: "round_half_even (of_int n) = n"
  by (simp add: round_half_even_def)

lemma rhe_floor_or: "round_half_even m = \<lfloor>m\<rfloor> \<or> round_half_even m = \<lfloor>m\<rfloor> + 1"
  by (simp add: round_half_even_def Let_def)

lemma rhe_mono: assumes "x \<le> y" shows "round_half_even x \<le> round_half_even y"
proof (cases "\<lfloor>x\<rfloor> = \<lfloor>y\<rfloor>")
  case True
  with assms show ?thesis
    by (auto simp: round_half_even_def Let_def)
next
  case False
  with assms have "\<lfloor>x\<rfloor> < \<lfloor>y\<rfloor>"
    by (meson floor_mono le_less)
  then have "\<lfloor>x\<rfloor> + 1 \<le> \<lfloor>y\<rfloor>" by simp
  moreover have "round_half_even x \<le> \<lfloor>x\<rfloor> + 1" using rhe_floor_or [of x] by auto
  moreover have "\<lfloor>y\<rfloor> \<le> round_half_even y" using rhe_floor_or [of y] by auto
  ultimately show ?thesis by linarith
qed

lemma rhe_ge: "of_int n \<le> x \<Longrightarrow> n \<le> round_half_even x"
  using rhe_mono [of "of_int n" x] by simp

lemma rhe_le: "x \<le> of_int n \<Longrightarrow> round_half_even x \<le> n"
  using rhe_mono [of x "of_int n"] by simp

lemma rhe_minus: "round_half_even (- x) = - round_half_even x"
proof (cases "x \<in> \<int>")
  case True
  then obtain n where "x = of_int n" by (auto elim: Ints_cases)
  then show ?thesis by (simp flip: of_int_minus)
next
  case False
  then have ne: "x \<noteq> of_int \<lfloor>x\<rfloor>" by (metis Ints_of_int)
  then have fl: "\<lfloor>- x\<rfloor> = - \<lfloor>x\<rfloor> - 1"
    by (simp add: floor_minus ceiling_altdef)
  from ne have fr: "0 < x - of_int \<lfloor>x\<rfloor>" "x - of_int \<lfloor>x\<rfloor> < 1"
    by linarith+
  show ?thesis
    unfolding round_half_even_def Let_def fl using fr
    by (auto simp: algebra_simps)
qed

lemma ulp_exponent_minus [simp]: "ulp_exponent (- x) = ulp_exponent x"
  by (simp add: ulp_exponent_def)

lemma binary64_minus: "binary64 (- x) = - binary64 x"
  by (simp add: binary64_def rhe_minus)

lemma binary64_nonneg: "0 \<le> x \<Longrightarrow> 0 \<le> binary64 x"
proof -
  assume "0 \<le> x"
  then have "(0::real) \<le> x / 2 powr of_int (ulp_exponent x)" by simp
  then have "0 \<le> round_half_even (x / 2 powr of_int (ulp_exponent x))"
    using rhe_ge [of 0] by simp
  then show ?thesis by (simp add: binary64_def)
qed

lemma floor_log2_bounds:
  assumes "0 < x"
  shows "2 powr of_int \<lfloor>log 2 x\<rfloor> \<le> x" and "x < 2 powr (of_int \<lfloor>log 2 x\<rfloor> + 1)"
proof -
  have "of_int \<lfloor>log 2 x\<rfloor> \<le> log 2 x" by simp
  then show "2 powr of_int \<lfloor>log 2 x\<rfloor> \<le> x"
    using assms le_log_iff [of 2 x "of_int \<lfloor>log 2 x\<rfloor>"] by simp
  have "log 2 x < of_int \<lfloor>log 2 x\<rfloor> + 1" by linarith
  then show "x < 2 powr (of_int \<lfloor>log 2 x\<rfloor> + 1)"
    using assms log_less_iff [of 2 x "of_int \<lfloor>log 2 x\<rfloor> + 1"] by simp
qed

lemma binary64_mono_pos:
  assumes "0 < x" and "x \<le> y"
  shows "binary64 x \<le> binary64 y"
proof -
  have y: "0 < y" using assms by simp
  let ?kx = "ulp_exponent x" and ?ky = "ulp_exponent y"
  have le: "\<lfloor>log 2 x\<rfloor> \<le> \<lfloor>log 2 y\<rfloor>"
    using assms by (intro floor_mono) simp
  then have kle: "?kx \<le> ?ky" using assms y by (simp add: ulp_exponent_def)
  show ?thesis
  proof (cases "?kx = ?ky")
    case True
    have "x / 2 powr of_int ?ky \<le> y / 2 powr of_int ?ky"
      using assms by (simp add: divide_right_mono)
    then have "round_half_even (x / 2 powr of_int ?ky) \<le> round_half_even (y / 2 powr of_int ?ky)"
      by (rule rhe_mono)
    then have "real_of_int (round_half_even (x / 2 powr of_int ?ky)) * 2 powr of_int ?ky \<le>
               real_of_int (round_half_even (y / 2 powr of_int ?ky)) * 2 powr of_int ?ky"
      by (simp add: mult_right_mono)
    then show ?thesis using assms y True by (simp add: binary64_def)
  next
    case False
    with kle have lt: "?kx < ?ky" by simp
    let ?ey = "\<lfloor>log 2 y\<rfloor>"
    have ky: "?ky = ?ey - 52" and elt: "\<lfloor>log 2 x\<rfloor> < ?ey" and kx52: "\<lfloor>log 2 x\<rfloor> - 52 \<le> ?kx"
      using lt assms y by (auto simp: ulp_exponent_def max_def split: if_splits)
    have ylow: "2 powr of_int ?ey \<le> y" using floor_log2_bounds(1) [OF y] .
    have "x < 2 powr (of_int \<lfloor>log 2 x\<rfloor> + 1)" using floor_log2_bounds(2) [OF assms(1)] .
    also have "\<dots> \<le> 2 powr of_int ?ey"
    proof (rule powr_mono)
      from elt have "\<lfloor>log 2 x\<rfloor> + 1 \<le> ?ey" by linarith
      then have "real_of_int (\<lfloor>log 2 x\<rfloor> + 1) \<le> real_of_int ?ey" by (simp only: of_int_le_iff)
      then show "real_of_int \<lfloor>log 2 x\<rfloor> + 1 \<le> real_of_int ?ey" by simp
    qed simp
    finally have xup: "x \<le> 2 powr of_int ?ey" by simp
    define n where "n = nat (?ey - ?kx)"
    have npos: "0 \<le> ?ey - ?kx" using lt ky by simp
    have pow: "(2::real) powr of_int ?ey = real_of_int (2 ^ n) * 2 powr of_int ?kx"
    proof -
      have "(2::real) powr of_int ?ey = 2 powr (of_int (?ey - ?kx) + of_int ?kx)" by simp
      also have "\<dots> = 2 powr of_int (?ey - ?kx) * 2 powr of_int ?kx"
        by (simp only: powr_add)
      also have "(2::real) powr of_int (?ey - ?kx) = 2 ^ n"
        using npos unfolding n_def by (subst powr_real_of_int) simp_all
      finally show ?thesis by simp
    qed
    have "x / 2 powr of_int ?kx \<le> real_of_int (2 ^ n)"
      using xup unfolding pow by (simp add: field_simps)
    then have "round_half_even (x / 2 powr of_int ?kx) \<le> 2 ^ n" by (rule rhe_le)
    then have "real_of_int (round_half_even (x / 2 powr of_int ?kx)) * 2 powr of_int ?kx \<le>
               real_of_int (2 ^ n) * 2 powr of_int ?kx"
      by (intro mult_right_mono) simp_all
    then have bx: "binary64 x \<le> 2 powr of_int ?ey"
      using assms unfolding pow by (simp add: binary64_def)
    have pow52: "(2::real) powr of_int ?ey = real_of_int (2 ^ 52) * 2 powr of_int ?ky"
    proof -
      have "(2::real) powr of_int ?ey = 2 powr (of_int 52 + of_int ?ky)"
        unfolding ky by simp
      also have "\<dots> = 2 powr of_int 52 * 2 powr of_int ?ky"
        by (simp only: powr_add)
      finally show ?thesis by (simp add: powr_real_of_int)
    qed
    have "real_of_int (2 ^ 52) \<le> y / 2 powr of_int ?ky"
      using ylow unfolding pow52 by (simp add: field_simps)
    then have "2 ^ 52 \<le> round_half_even (y / 2 powr of_int ?ky)" by (rule rhe_ge)
    then have "real_of_int (2 ^ 52) * 2 powr of_int ?ky \<le>
               real_of_int (round_half_even (y / 2 powr of_int ?ky)) * 2 powr of_int ?ky"
      by (intro mult_right_mono) simp_all
    then have "2 powr of_int ?ey \<le> binary64 y"
      using y unfolding pow52 by (simp add: binary64_def)
    with bx show ?thesis by simp
  qed
qed

lemma binary64_mono: assumes "x \<le> y" shows "binary64 x \<le> binary64 y"
proof -
  consider "0 < x" | "x \<le> 0" "0 \<le> y" | "y < 0" using assms by linarith
  then show ?thesis
  proof cases
    case 1
    then show ?thesis using assms by (rule binary64_mono_pos)
  next
    case 2
    have "binary64 x \<le> 0" using binary64_nonneg [of "- x"] 2(1) by (simp add: binary64_minus)
    moreover have "0 \<le> binary64 y" using 2(2) by (rule binary64_nonneg)
    ultimately show ?thesis by simp
  next
    case 3
    then have "0 < - y" "- y \<le> - x" using assms by simp_all
    then have "binary64 (- y) \<le> binary64 (- x)" by (rule binary64_mono_pos)
    then show ?thesis by (simp add: binary64_minus)
  qed
qed

lemma floor_log2_eq:
  assumes "2 ^ n \<le> x" and "x < 2 ^ Suc n"
  shows "\<lfloor>log 2 x\<rfloor> = int n"
proof -
  have pos: "0 < x" using assms(1) by (meson less_le_trans zero_less_numeral zero_less_power)
  have "real n \<le> log 2 x"
    using assms(1) pos le_log_iff [of 2 x "real n"] by (simp add: powr_realpow)
  moreover have "log 2 x < real n + 1"
    using assms(2) pos log_less_iff [of 2 x "real n + 1"]
    by (simp add: powr_realpow powr_add)
  ultimately show ?thesis by (intro floor_unique) simp_all
qed

lemma binary64_exact:
  assumes "x / 2 powr of_int (ulp_exponent x) = of_int m"
  shows "binary64 x = x"
proof -
  have "of_int m * 2 powr of_int (ulp_exponent x) = x"
    using assms by (simp add: field_simps)
  then show ?thesis by (simp add: binary64_def assms)
qed

lemma binary64_of_int:
  assumes "\<bar>n\<bar> < 2 ^ 53"
  shows "binary64 (of_int n) = of_int n"
proof (cases "n = 0")
  case True
  then show ?thesis by (simp add: binary64_def)
next
  case False
  let ?x = "real_of_int n"
  let ?e = "\<lfloor>log 2 \<bar>?x\<bar>\<rfloor>"
  have pos: "0 < \<bar>?x\<bar>" and one: "1 \<le> \<bar>?x\<bar>" using False by simp_all
  have "0 \<le> log 2 \<bar>?x\<bar>" using one by simp
  then have e0: "0 \<le> ?e" by simp
  have "\<bar>?x\<bar> < 2 ^ 53" using assms by (metis of_int_abs of_int_less_numeral_power_cancel_iff)
  then have "log 2 \<bar>?x\<bar> < 53"
    using pos log_less_iff [of 2 "\<bar>?x\<bar>" 53] by (simp add: powr_realpow [of 2 53, simplified])
  then have e52: "?e \<le> 52" by linarith
  have k: "ulp_exponent ?x = ?e - 52" using e0 by (simp add: ulp_exponent_def)
  define j where "j = nat (52 - ?e)"
  have "(2::real) powr of_int (?e - 52) = inverse (2 ^ j)"
    using e52 unfolding j_def by (subst powr_real_of_int) (auto simp: nat_diff_distrib)
  then have "?x / 2 powr of_int (ulp_exponent ?x) = of_int (n * 2 ^ j)"
    unfolding k by (simp add: field_simps)
  then show ?thesis by (rule binary64_exact)
qed

lemma binary64_numeral [simp]:
  "\<bar>numeral w :: int\<bar> < 2 ^ 53 \<Longrightarrow> binary64 (numeral w) = numeral w"
  "\<bar>numeral w :: int\<bar> < 2 ^ 53 \<Longrightarrow> binary64 (- numeral w) = - numeral w"
  "binary64 0 = 0" "binary64 1 = 1" "binary64 (- 1) = - 1"
  using binary64_of_int [of "numeral w"] binary64_of_int [of "- numeral w"]
    binary64_of_int [of 1] binary64_of_int [of "- 1"]
  by (simp_all add: binary64_def)

lemma binary64_tie_up: "binary64 9007199254740995 = 9007199254740996"
proof -
  have "\<lfloor>log 2 \<bar>9007199254740995 :: real\<bar>\<rfloor> = int 53"
    by (rule floor_log2_eq) simp_all
  then have "ulp_exponent 9007199254740995 = 1" by (simp add: ulp_exponent_def)
  then show ?thesis by (simp add: binary64_def round_half_even_def)
qed

lemma binary64_tie_down: "binary64 9007199254740997 = 9007199254740996"
proof -
  have "\<lfloor>log 2 \<bar>9007199254740997 :: real\<bar>\<rfloor> = int 53"
    by (rule floor_log2_eq) simp_all
  then have "ulp_exponent 9007199254740997 = 1" by (simp add: ulp_exponent_def)
  then show ?thesis by (simp add: binary64_def round_half_even_def)
qed

subsection \<open>The timer queue\<close>

lemma pq_top_None_iff: "pq_top q = None \<longleftrightarrow> q = []"
  by (induction q) (auto split: option.splits)

lemma pq_top_mem: "pq_top q = Some t \<Longrightarrow> t \<in> set q"
  by (induction q arbitrary: t) (auto split: option.splits if_splits)

lemma pq_top_least: "pq_top q = Some t \<Longrightarrow> u \<in> set q \<Longrightarrow> m_time t \<le> m_time u"
proof (induction q arbitrary: t u)
  case Nil
  then show ?case by simp
next
  case (Cons a q)
  show ?case
  proof (cases "pq_top q")
    case None
    then have "q = []" by (simp add: pq_top_None_iff)
    with Cons.prems None show ?thesis by simp
  next
    case (Some v)
    have least: "\<And>w. w \<in> set q \<Longrightarrow> m_time v \<le> m_time w"
      using Cons.IH [OF Some] .
    from Cons.prems Some show ?thesis
      by (auto split: if_splits dest: least)
  qed
qed

lemma fire_expired_returns:
  assumes "\<forall>t\<in>set q. 0 < m_timeout t" and "q \<noteq> []"
  shows "\<exists>q' js. fire_expired q jobs = Some (q', jobs @ js) \<and>
           mset q' = image_mset (\<lambda>t. if m_time t \<le> 0 then reset t else t) (mset q) \<and>
           mset js = image_mset m_job (filter_mset (\<lambda>t. m_time t \<le> 0) (mset q))"
  using assms
proof (induction "length (filter (\<lambda>t. m_time t \<le> 0) q)" arbitrary: q jobs)
  case 0
  then have none: "\<forall>t\<in>set q. \<not> m_time t \<le> 0"
    by (simp add: filter_empty_conv)
  from 0 obtain t where top: "pq_top q = Some t"
    by (cases "pq_top q") (auto simp: pq_top_None_iff)
  then have "t \<in> set q" by (rule pq_top_mem)
  with none have "\<not> m_time t \<le> 0" by blast
  with top have "fire_expired q jobs = Some (q, jobs @ [])"
    by (subst fire_expired.simps) (simp add: to_double_def)
  moreover have "image_mset (\<lambda>t. if m_time t \<le> 0 then reset t else t) (mset q) = mset q"
    using none by (intro multiset.map_ident_strong) auto
  moreover have "filter_mset (\<lambda>t. m_time t \<le> 0) (mset q) = {#}"
    using none by (simp add: filter_empty_conv flip: mset_filter)
  ultimately show ?case by (metis image_mset_empty mset.simps(1))
next
  case (Suc n)
  from Suc.prems obtain t where top: "pq_top q = Some t"
    by (cases "pq_top q") (auto simp: pq_top_None_iff)
  then have tq: "t \<in> set q" by (rule pq_top_mem)
  have due: "m_time t \<le> 0"
  proof (rule ccontr)
    assume "\<not> m_time t \<le> 0"
    then have "\<forall>u\<in>set q. \<not> m_time u \<le> 0"
      using pq_top_least [OF top] by fastforce
    then have "filter (\<lambda>t. m_time t \<le> 0) q = []" by (simp add: filter_empty_conv)
    with Suc.hyps(2) show False by simp
  qed
  let ?q1 = "pq_push (reset t) (pq_pop q)"
  have mq1: "mset ?q1 = mset q - {#t#} + {#reset t#}"
    using top by (simp add: pq_push_def pq_pop_def)
  have pos: "0 < m_timeout t" using Suc.prems tq by blast
  have rt: "\<not> m_time (reset t) \<le> 0" using pos by (simp add: reset_def)
  have split: "mset q = (mset q - {#t#}) + {#t#}" using tq by simp
  have cnt: "size (filter_mset (\<lambda>t. m_time t \<le> 0) (mset q)) = Suc n"
    using Suc.hyps(2) by (metis mset_filter size_mset)
  have "size (filter_mset (\<lambda>t. m_time t \<le> 0) (mset q - {#t#})) = n"
    using cnt due by (subst (asm) split) simp
  then have "size (filter_mset (\<lambda>t. m_time t \<le> 0) (mset ?q1)) = n"
    using rt by (simp add: mq1)
  then have n: "n = length (filter (\<lambda>t. m_time t \<le> 0) ?q1)"
    by (metis mset_filter size_mset)
  have pos1: "\<forall>u\<in>set ?q1. 0 < m_timeout u"
  proof
    fix u assume "u \<in> set ?q1"
    then have "u \<in># mset q - {#t#} + {#reset t#}" using mq1 by (metis set_mset_mset)
    then have "u = reset t \<or> u \<in> set q" by (auto dest: in_diffD)
    then show "0 < m_timeout u" using Suc.prems pos by (auto simp: reset_def)
  qed
  have ne1: "?q1 \<noteq> []" by (simp add: pq_push_def)
  from Suc.hyps(1) [OF n pos1 ne1, of "jobs @ [getJob t]"]
  obtain q' js where
    r: "fire_expired ?q1 (jobs @ [getJob t]) = Some (q', (jobs @ [getJob t]) @ js)" and
    mq: "mset q' = image_mset (\<lambda>t. if m_time t \<le> 0 then reset t else t) (mset ?q1)" and
    mj: "mset js = image_mset m_job (filter_mset (\<lambda>t. m_time t \<le> 0) (mset ?q1))"
    by blast
  have "fire_expired q jobs = Some (q', jobs @ (getJob t # js))"
    using top due r by (subst fire_expired.simps) (simp add: to_double_def)
  moreover have "mset q' = image_mset (\<lambda>t. if m_time t \<le> 0 then reset t else t) (mset q)"
    using mq rt due by (subst split) (simp add: mq1)
  moreover have "mset (getJob t # js) =
      image_mset m_job (filter_mset (\<lambda>t. m_time t \<le> 0) (mset q))"
    using mj rt due by (subst split) (simp add: mq1 getJob_def)
  ultimately show ?case by blast
qed

subsection \<open>The timer lock, addTimer and removeTimer\<close>

lemma unlock_lock_timers: "unlock_timers (lock_timers s) = s"
  by (simp add: unlock_timers_def lock_timers_def)

lemma timers_unlock [simp]: "m_timers (unlock_timers s) = m_timers s"
  by (simp add: unlock_timers_def)

lemma timers_lock [simp]: "m_timers (lock_timers s) = m_timers s"
  by (simp add: lock_timers_def)

lemma stopwatch_lock [simp]: "m_stopwatch (lock_timers s) = m_stopwatch s"
  by (simp add: lock_timers_def)

lemma unlock_update_lock:
  "unlock_timers ((lock_timers s)\<lparr>m_timers := q\<rparr>) = s\<lparr>m_timers := q\<rparr>"
  "unlock_timers ((lock_timers s)\<lparr>m_timers := q, m_stopwatch := w\<rparr>) = s\<lparr>m_timers := q, m_stopwatch := w\<rparr>"
  by (simp_all add: unlock_timers_def lock_timers_def)

lemma removeTimer_eq: "removeTimer job s = s\<lparr>m_timers := filter (\<lambda>t. m_job t \<noteq> job) (m_timers s)\<rparr>"
  by (simp add: removeTimer_def removeTimerNoLock_def pq_swap_def getJob_def
      unlock_timers_def lock_timers_def)

lemma addTimer_eq:
  "job \<noteq> NULL \<Longrightarrow> 0 < timeout \<Longrightarrow>
   addTimer job timeout s =
     Inr (s\<lparr>m_timers := filter (\<lambda>t. m_job t \<noteq> job) (m_timers s) @
            [\<lparr>m_job = job, m_timeout = timeout, m_time = timeout\<rparr>]\<rparr>)"
  by (simp add: addTimer_def removeTimerNoLock_def pq_swap_def getJob_def pq_push_def
      CTimer_new_def reset_def unlock_timers_def lock_timers_def)

lemma processTimers_locked_idle:
  assumes "m_timers s = [] \<or> (\<forall>t\<in>set (m_timers s). now - m_stopwatch s < m_time t)"
  shows "processTimers_locked now s = Some (False, s, [])"
proof (cases "pq_top (m_timers s)")
  case None
  then show ?thesis
    by (simp add: processTimers_locked_def pq_top_None_iff unlock_lock_timers Let_def)
next
  case (Some t)
  then have "t \<in> set (m_timers s)" by (rule pq_top_mem)
  with assms have "now - m_stopwatch s < m_time t" by auto
  with Some show ?thesis
    by (simp add: processTimers_locked_def unlock_lock_timers Let_def to_double_def)
qed

lemma processTimers_locked_fires:
  assumes pos: "\<forall>t\<in>set (m_timers s). 0 < m_timeout t"
    and ne: "m_timers s \<noteq> []"
    and ex: "\<exists>t\<in>set (m_timers s). m_time t \<le> now - m_stopwatch s"
  shows "\<exists>q jobs. processTimers_locked now s =
             Some (True, s\<lparr>m_timers := q, m_stopwatch := now\<rparr>, jobs) \<and>
           mset q = image_mset
             (\<lambda>t. if double_sub (m_time t) (now - m_stopwatch s) \<le> 0 then t\<lparr>m_time := m_timeout t\<rparr>
                  else t\<lparr>m_time := double_sub (m_time t) (now - m_stopwatch s)\<rparr>) (mset (m_timers s)) \<and>
           mset jobs = image_mset m_job
             (filter_mset (\<lambda>t. double_sub (m_time t) (now - m_stopwatch s) \<le> 0) (mset (m_timers s)))"
proof -
  let ?time = "now - m_stopwatch s"
  let ?q0 = "map (\<lambda>index. minus_assign index ?time) (m_timers s)"
  from ne obtain t where top: "pq_top (m_timers s) = Some t"
    by (cases "pq_top (m_timers s)") (auto simp: pq_top_None_iff)
  from ex obtain u where "u \<in> set (m_timers s)" "m_time u \<le> ?time" by blast
  with pq_top_least [OF top] have le: "\<not> ?time < m_time t" by fastforce
  have pos0: "\<forall>t\<in>set ?q0. 0 < m_timeout t" using pos by (auto simp: minus_assign_def)
  have ne0: "?q0 \<noteq> []" using ne by simp
  from fire_expired_returns [OF pos0 ne0, of "[]"] obtain q js where
    r: "fire_expired ?q0 [] = Some (q, js)" and
    mq: "mset q = image_mset (\<lambda>t. if m_time t \<le> 0 then reset t else t) (mset ?q0)" and
    mj: "mset js = image_mset m_job (filter_mset (\<lambda>t. m_time t \<le> 0) (mset ?q0))"
    by auto
  have "processTimers_locked now s = Some (True, s\<lparr>m_timers := q, m_stopwatch := now\<rparr>, js)"
    using ne top le r
    by (simp add: processTimers_locked_def Let_def to_double_def unlock_update_lock)
  moreover have "mset q = image_mset
             (\<lambda>t. if double_sub (m_time t) ?time \<le> 0 then t\<lparr>m_time := m_timeout t\<rparr>
                  else t\<lparr>m_time := double_sub (m_time t) ?time\<rparr>) (mset (m_timers s))"
    unfolding mq
    by (simp add: multiset.map_comp comp_def minus_assign_def reset_def flip: mset_map
        cong: if_cong)
  moreover have "mset js = image_mset m_job
             (filter_mset (\<lambda>t. double_sub (m_time t) ?time \<le> 0) (mset (m_timers s)))"
    unfolding mj
    by (simp add: filter_map comp_def minus_assign_def flip: mset_map mset_filter)
  ultimately show ?thesis by blast
qed

subsection \<open>C1: what a call of processTimers does to the timers\<close>

text \<open>
  C1, as amended. Let \<open>time\<close> be the stopwatch reading of the call, and let every timer
  of the queue have a positive timeout (the constructor asserts it). When the queue is
  empty or every remaining time is above \<open>time\<close>, the call is over at once: no remaining
  time is changed, no job is saved and the stopwatch is not reset. Otherwise every
  remaining time is lowered by \<open>time\<close> in double arithmetic (the difference, rounded to
  a double), and the block ends with a queue that holds, for every entry of the old one,
  that entry with its lowered remaining time when that is above zero, and with its
  remaining time set back to its full timeout when the lowered time is at or below zero;
  the saved jobs are exactly the jobs of the entries whose lowered remaining time is at
  or below zero; the stopwatch is reset. Of two timers, the one with the smaller remaining
  time before the subtraction does not have the larger one after it (rounding can make
  the two equal); the reset of a due timer is not bound by that order.
\<close>

theorem processTimers_tick:
  assumes "\<forall>t\<in>set (m_timers s). 0 < m_timeout t"
  shows
    "(let time = now - m_stopwatch s in
       (m_timers s = [] \<or> (\<forall>t\<in>set (m_timers s). time < m_time t) \<longrightarrow>
          processTimers_locked now s = Some (False, s, [])) \<and>
       (m_timers s \<noteq> [] \<and> (\<exists>t\<in>set (m_timers s). m_time t \<le> time) \<longrightarrow>
          (\<exists>q jobs.
             processTimers_locked now s =
               Some (True, s\<lparr>m_timers := q, m_stopwatch := now\<rparr>, jobs) \<and>
             mset q = image_mset
               (\<lambda>t. if double_sub (m_time t) time \<le> 0 then t\<lparr>m_time := m_timeout t\<rparr>
                    else t\<lparr>m_time := double_sub (m_time t) time\<rparr>) (mset (m_timers s)) \<and>
             mset jobs = image_mset m_job
               (filter_mset (\<lambda>t. double_sub (m_time t) time \<le> 0) (mset (m_timers s))))) \<and>
       (\<forall>a b. less_timer a b \<longrightarrow> \<not> less_timer (minus_assign b time) (minus_assign a time)))"
  unfolding Let_def
proof (intro conjI impI)
  assume "m_timers s = [] \<or> (\<forall>t\<in>set (m_timers s). now - m_stopwatch s < m_time t)"
  then show "processTimers_locked now s = Some (False, s, [])"
    by (rule processTimers_locked_idle)
next
  assume "m_timers s \<noteq> [] \<and> (\<exists>t\<in>set (m_timers s). m_time t \<le> now - m_stopwatch s)"
  then show "\<exists>q jobs.
             processTimers_locked now s =
               Some (True, s\<lparr>m_timers := q, m_stopwatch := now\<rparr>, jobs) \<and>
             mset q = image_mset
               (\<lambda>t. if double_sub (m_time t) (now - m_stopwatch s) \<le> 0 then t\<lparr>m_time := m_timeout t\<rparr>
                    else t\<lparr>m_time := double_sub (m_time t) (now - m_stopwatch s)\<rparr>) (mset (m_timers s)) \<and>
             mset jobs = image_mset m_job
               (filter_mset (\<lambda>t. double_sub (m_time t) (now - m_stopwatch s) \<le> 0) (mset (m_timers s)))"
    using processTimers_locked_fires [OF assms] by blast
next
  show "\<forall>a b. less_timer a b \<longrightarrow>
      \<not> less_timer (minus_assign b (now - m_stopwatch s)) (minus_assign a (now - m_stopwatch s))"
    by (simp add: less_timer_def minus_assign_def double_sub_def binary64_mono not_less)
qed

text \<open>The amended statement at a queue of two timers, one of them due.\<close>

theorem processTimers_tick_witness:
  "\<exists>q jobs.
     processTimers_locked 4
       ((CXWindowsScreen_new 2 0 :: unit CXWindowsScreen)
          \<lparr>m_timers := [\<lparr>m_job = 1, m_timeout = 5, m_time = 2\<rparr>,
                        \<lparr>m_job = 2, m_timeout = 3, m_time = 7\<rparr>]\<rparr>) =
       Some (True,
         (CXWindowsScreen_new 2 0)\<lparr>m_timers := q, m_stopwatch := 4\<rparr>, jobs) \<and>
     mset q = {#\<lparr>m_job = 1, m_timeout = 5, m_time = 5\<rparr>,
                \<lparr>m_job = 2, m_timeout = 3, m_time = 3\<rparr>#} \<and>
     mset jobs = {#1#}"
  using processTimers_tick
    [of "(CXWindowsScreen_new 2 0 :: unit CXWindowsScreen)
          \<lparr>m_timers := [\<lparr>m_job = 1, m_timeout = 5, m_time = 2\<rparr>,
                        \<lparr>m_job = 2, m_timeout = 3, m_time = 7\<rparr>]\<rparr>" 4]
  by (simp add: CXWindowsScreen_new_def double_sub_def)

lemma fire_one_of_three:
  "fire_expired
     [\<lparr>m_job = 7, m_timeout = 5, m_time = 0\<rparr>,
      \<lparr>m_job = 8, m_timeout = 9, m_time = 9007199254740996\<rparr>,
      \<lparr>m_job = 9, m_timeout = 9, m_time = 9007199254740996\<rparr>] [] =
     Some ([\<lparr>m_job = 8, m_timeout = 9, m_time = 9007199254740996\<rparr>,
            \<lparr>m_job = 9, m_timeout = 9, m_time = 9007199254740996\<rparr>,
            \<lparr>m_job = 7, m_timeout = 5, m_time = 5\<rparr>], [7])"
  by (simp add: fire_expired.simps to_double_def pq_push_def pq_pop_def reset_def getJob_def)

lemma fire_one_of_two:
  "fire_expired
     [\<lparr>m_job = 7, m_timeout = 5, m_time = - 2\<rparr>,
      \<lparr>m_job = 8, m_timeout = 3, m_time = 3\<rparr>] [] =
     Some ([\<lparr>m_job = 8, m_timeout = 3, m_time = 3\<rparr>,
            \<lparr>m_job = 7, m_timeout = 5, m_time = 5\<rparr>], [7])"
  by (simp add: fire_expired.simps to_double_def pq_push_def pq_pop_def reset_def getJob_def)

text \<open>
  C1 as stated fails in three places. Where no timer has expired nothing is lowered: with
  one timer of remaining time 5 and a stopwatch reading of 1 the call returns
  \<^verbatim>\<open>false\<close> and the remaining time is still 5. The subtraction rounds: at a reading of 1
  (job 7 is due) the remaining times \<open>2 ^ 53 + 4\<close> and \<open>2 ^ 53 + 6\<close> of jobs 8 and 9,
  which differ before the call, are both \<open>2 ^ 53 + 4\<close> after it, so the first is not
  lowered at all and the strict order is lost. And the reset of a due timer reverses the
  order: remaining times 2 and 7 before a call at reading 4, 5 and 3 after it.
\<close>

theorem processTimers_tick_counterexample:
  "processTimers_locked 1
     ((CXWindowsScreen_new 2 0 :: unit CXWindowsScreen)
        \<lparr>m_timers := [\<lparr>m_job = 7, m_timeout = 5, m_time = 5\<rparr>]\<rparr>) =
     Some (False,
       (CXWindowsScreen_new 2 0)\<lparr>m_timers := [\<lparr>m_job = 7, m_timeout = 5, m_time = 5\<rparr>]\<rparr>,
       []) \<and>
   processTimers_locked 1
     ((CXWindowsScreen_new 2 0 :: unit CXWindowsScreen)
        \<lparr>m_timers := [\<lparr>m_job = 7, m_timeout = 5, m_time = 1\<rparr>,
                      \<lparr>m_job = 8, m_timeout = 9, m_time = 9007199254740996\<rparr>,
                      \<lparr>m_job = 9, m_timeout = 9, m_time = 9007199254740998\<rparr>]\<rparr>) =
     Some (True,
       (CXWindowsScreen_new 2 0)
         \<lparr>m_timers := [\<lparr>m_job = 8, m_timeout = 9, m_time = 9007199254740996\<rparr>,
                       \<lparr>m_job = 9, m_timeout = 9, m_time = 9007199254740996\<rparr>,
                       \<lparr>m_job = 7, m_timeout = 5, m_time = 5\<rparr>],
          m_stopwatch := 1\<rparr>,
       [7]) \<and>
   processTimers_locked 4
     ((CXWindowsScreen_new 2 0 :: unit CXWindowsScreen)
        \<lparr>m_timers := [\<lparr>m_job = 7, m_timeout = 5, m_time = 2\<rparr>,
                      \<lparr>m_job = 8, m_timeout = 3, m_time = 7\<rparr>]\<rparr>) =
     Some (True,
       (CXWindowsScreen_new 2 0)
         \<lparr>m_timers := [\<lparr>m_job = 8, m_timeout = 3, m_time = 3\<rparr>,
                       \<lparr>m_job = 7, m_timeout = 5, m_time = 5\<rparr>],
          m_stopwatch := 4\<rparr>,
       [7])"
  by (simp add: processTimers_locked_def CXWindowsScreen_new_def lock_timers_def
      unlock_timers_def to_double_def minus_assign_def double_sub_def binary64_tie_up
      binary64_tie_down fire_one_of_three fire_one_of_two)

subsection \<open>C2: addTimer replaces, removeTimer removes\<close>

lemma run_calls_addTimers:
  assumes "job \<noteq> NULL" and "\<forall>t\<in>set ts. 0 < t"
  shows "\<exists>s'. run_calls (map (AddTimer job) ts) s = Inr s' \<and>
           filter (\<lambda>t. m_job t = job) (m_timers s') =
             (if ts = [] then filter (\<lambda>t. m_job t = job) (m_timers s)
              else [\<lparr>m_job = job, m_timeout = last ts, m_time = last ts\<rparr>])"
  using assms(2)
proof (induction ts arbitrary: s)
  case Nil
  then show ?case by simp
next
  case (Cons a ts)
  then have a: "0 < a" and rest: "\<forall>t\<in>set ts. 0 < t" by simp_all
  let ?s1 = "s\<lparr>m_timers := filter (\<lambda>t. m_job t \<noteq> job) (m_timers s) @
            [\<lparr>m_job = job, m_timeout = a, m_time = a\<rparr>]\<rparr>"
  from Cons.IH [OF rest, of ?s1] obtain s' where
    "run_calls (map (AddTimer job) ts) ?s1 = Inr s'" and
    "filter (\<lambda>t. m_job t = job) (m_timers s') =
       (if ts = [] then filter (\<lambda>t. m_job t = job) (m_timers ?s1)
        else [\<lparr>m_job = job, m_timeout = last ts, m_time = last ts\<rparr>])"
    by blast
  then show ?case
    using addTimer_eq [OF assms(1) a, of s] by (auto simp: filter_empty_conv)
qed

text \<open>
  C2. \<^verbatim>\<open>addTimer(job, timeout)\<close> with a job that is not \<open>NULL\<close> and a positive
  timeout leaves exactly one entry for the job, with that timeout as its period and its
  remaining time; the entries of the other jobs are as before, and a queue with no job
  twice stays so. After any non-empty sequence of such calls for one job, the one entry
  of the job has the last timeout. \<^verbatim>\<open>removeTimer(job)\<close> leaves no entry for the job
  and the other entries as before, and changes nothing when the job has no entry.
\<close>

theorem addTimer_replaces:
  "(job \<noteq> NULL \<and> 0 < timeout \<longrightarrow>
      (\<exists>s'. addTimer job timeout s = Inr s' \<and>
         filter (\<lambda>t. m_job t = job) (m_timers s') =
           [\<lparr>m_job = job, m_timeout = timeout, m_time = timeout\<rparr>] \<and>
         filter (\<lambda>t. m_job t \<noteq> job) (m_timers s') =
           filter (\<lambda>t. m_job t \<noteq> job) (m_timers s) \<and>
         (distinct (map m_job (m_timers s)) \<longrightarrow> distinct (map m_job (m_timers s'))))) \<and>
   (job \<noteq> NULL \<and> ts \<noteq> [] \<and> (\<forall>t\<in>set ts. 0 < t) \<longrightarrow>
      (\<exists>s'. run_calls (map (AddTimer job) ts) s = Inr s' \<and>
         filter (\<lambda>t. m_job t = job) (m_timers s') =
           [\<lparr>m_job = job, m_timeout = last ts, m_time = last ts\<rparr>])) \<and>
   filter (\<lambda>t. m_job t = job) (m_timers (removeTimer job s)) = [] \<and>
   filter (\<lambda>t. m_job t \<noteq> job) (m_timers (removeTimer job s)) =
     filter (\<lambda>t. m_job t \<noteq> job) (m_timers s) \<and>
   (job \<notin> m_job ` set (m_timers s) \<longrightarrow> removeTimer job s = s)"
proof (intro conjI impI)
  assume h: "job \<noteq> NULL \<and> 0 < timeout"
  then have eq: "addTimer job timeout s =
     Inr (s\<lparr>m_timers := filter (\<lambda>t. m_job t \<noteq> job) (m_timers s) @
            [\<lparr>m_job = job, m_timeout = timeout, m_time = timeout\<rparr>]\<rparr>)"
    by (simp add: addTimer_eq)
  have "distinct (map m_job (m_timers s)) \<longrightarrow>
        distinct (map m_job (filter (\<lambda>t. m_job t \<noteq> job) (m_timers s) @
            [\<lparr>m_job = job, m_timeout = timeout, m_time = timeout\<rparr>]))"
    by (auto simp: distinct_map_filter)
  then show "\<exists>s'. addTimer job timeout s = Inr s' \<and>
         filter (\<lambda>t. m_job t = job) (m_timers s') =
           [\<lparr>m_job = job, m_timeout = timeout, m_time = timeout\<rparr>] \<and>
         filter (\<lambda>t. m_job t \<noteq> job) (m_timers s') =
           filter (\<lambda>t. m_job t \<noteq> job) (m_timers s) \<and>
         (distinct (map m_job (m_timers s)) \<longrightarrow> distinct (map m_job (m_timers s')))"
    unfolding eq by (simp add: filter_empty_conv)
next
  assume "job \<noteq> NULL \<and> ts \<noteq> [] \<and> (\<forall>t\<in>set ts. 0 < t)"
  then show "\<exists>s'. run_calls (map (AddTimer job) ts) s = Inr s' \<and>
         filter (\<lambda>t. m_job t = job) (m_timers s') =
           [\<lparr>m_job = job, m_timeout = last ts, m_time = last ts\<rparr>]"
    using run_calls_addTimers [of job ts s] by auto
next
  show "filter (\<lambda>t. m_job t = job) (m_timers (removeTimer job s)) = []"
    by (simp add: removeTimer_eq filter_empty_conv)
next
  show "filter (\<lambda>t. m_job t \<noteq> job) (m_timers (removeTimer job s)) =
     filter (\<lambda>t. m_job t \<noteq> job) (m_timers s)"
    by (simp add: removeTimer_eq)
next
  assume "job \<notin> m_job ` set (m_timers s)"
  then have "filter (\<lambda>t. m_job t \<noteq> job) (m_timers s) = m_timers s"
    by (auto simp: filter_id_conv)
  then show "removeTimer job s = s" by (simp add: removeTimer_eq)
qed

text \<open>C2 at a queue of two jobs: a replaced timer, three calls in a row, and the
  removal of a job that is not there.\<close>

theorem addTimer_replaces_witness:
  "(\<exists>s'. addTimer 7 3 ((CXWindowsScreen_new 2 0 :: unit CXWindowsScreen)
            \<lparr>m_timers := [\<lparr>m_job = 7, m_timeout = 5, m_time = 1\<rparr>,
                          \<lparr>m_job = 8, m_timeout = 2, m_time = 2\<rparr>]\<rparr>) = Inr s' \<and>
      filter (\<lambda>t. m_job t = 7) (m_timers s') = [\<lparr>m_job = 7, m_timeout = 3, m_time = 3\<rparr>] \<and>
      filter (\<lambda>t. m_job t \<noteq> 7) (m_timers s') = [\<lparr>m_job = 8, m_timeout = 2, m_time = 2\<rparr>] \<and>
      distinct (map m_job (m_timers s'))) \<and>
   (\<exists>s'. run_calls [AddTimer 7 4, AddTimer 7 9, AddTimer 7 6]
            ((CXWindowsScreen_new 2 0 :: unit CXWindowsScreen)
            \<lparr>m_timers := [\<lparr>m_job = 7, m_timeout = 5, m_time = 1\<rparr>,
                          \<lparr>m_job = 8, m_timeout = 2, m_time = 2\<rparr>]\<rparr>) = Inr s' \<and>
      filter (\<lambda>t. m_job t = 7) (m_timers s') = [\<lparr>m_job = 7, m_timeout = 6, m_time = 6\<rparr>]) \<and>
   removeTimer 9 ((CXWindowsScreen_new 2 0 :: unit CXWindowsScreen)
            \<lparr>m_timers := [\<lparr>m_job = 7, m_timeout = 5, m_time = 1\<rparr>,
                          \<lparr>m_job = 8, m_timeout = 2, m_time = 2\<rparr>]\<rparr>) =
     (CXWindowsScreen_new 2 0)
            \<lparr>m_timers := [\<lparr>m_job = 7, m_timeout = 5, m_time = 1\<rparr>,
                          \<lparr>m_job = 8, m_timeout = 2, m_time = 2\<rparr>]\<rparr>"
  using addTimer_replaces [of 7 3 "(CXWindowsScreen_new 2 0 :: unit CXWindowsScreen)
            \<lparr>m_timers := [\<lparr>m_job = 7, m_timeout = 5, m_time = 1\<rparr>,
                          \<lparr>m_job = 8, m_timeout = 2, m_time = 2\<rparr>]\<rparr>" "[4, 9, 6]"]
    addTimer_replaces [of 9 3 "(CXWindowsScreen_new 2 0 :: unit CXWindowsScreen)
            \<lparr>m_timers := [\<lparr>m_job = 7, m_timeout = 5, m_time = 1\<rparr>,
                          \<lparr>m_job = 8, m_timeout = 2, m_time = 2\<rparr>]\<rparr>" "[]"]
  by (simp add: NULL_def CXWindowsScreen_new_def)

subsection \<open>C9: jobs run after the block, and a job that removes itself is gone\<close>

lemma mutex_removeTimer [simp]: "m_timersMutex (removeTimer job s) = m_timersMutex s"
  by (simp add: removeTimer_eq)










subsection \<open>C3: client messages\<close>

lemma onPreDispatch_ClientMessage:
  "onPreDispatch ops handler (ClientMessage message_type format l0) s =
     (if message_type = m_atomScreensaver s \<or> format = 32
      then (True, s, [OnScreensaver (l0 \<noteq> 0)])
      else (handler (ClientMessage message_type format l0), s,
            [ScreenSaverOnPreDispatch (ClientMessage message_type format l0),
             OnPreDispatch (ClientMessage message_type format l0)]))"
  by (simp add: onPreDispatch_def pass_on_def)

text \<open>
  C3 does not hold of the code. The test of line 558 joins its two conditions with "or":
  a client message of format 32 whose message type is not the screen saver atom (here type
  99 against the atom 5) is reported to \<^verbatim>\<open>onScreensaver\<close> and returned as handled;
  it reaches neither the screen saver object nor the event handler's
  \<^verbatim>\<open>onPreDispatch\<close>.
\<close>

theorem client_message_of_format_32_taken_for_screensaver:
  "onPreDispatch spec_ops (\<lambda>e. False) (ClientMessage 99 32 1)
     ((CXWindowsScreen_new 2 0)\<lparr>m_atomScreensaver := 5\<rparr>) =
     (True, (CXWindowsScreen_new 2 0)\<lparr>m_atomScreensaver := 5\<rparr>, [OnScreensaver True]) \<and>
   (99::nat) \<noteq> m_atomScreensaver
     ((CXWindowsScreen_new 2 0 :: ClipboardChannel CXWindowsScreen)\<lparr>m_atomScreensaver := 5\<rparr>)"
  by (simp add: onPreDispatch_def CXWindowsScreen_new_def)

subsection \<open>C4: a destroyed window\<close>

lemma set_clipboard_simps [simp]:
  "m_clipboard (set_clipboard cid c s) = (m_clipboard s)[cid := Some c]"
  "kClipboardEnd (set_clipboard cid c s) = kClipboardEnd s"
  by (simp_all add: set_clipboard_def kClipboardEnd_def)

lemma set_clipboard_twice:
  "(set_clipboard cid c s)\<lparr>m_clipboard := cs\<rparr> = s\<lparr>m_clipboard := cs\<rparr>"
  by (simp add: set_clipboard_def)

lemma destroyClipboardRequest_loop_from:
  assumes "n = length (m_clipboard s)" and "i \<le> n"
  shows "\<exists>cs'. destroyClipboardRequest_loop ops w [i..<n] s =
           (s\<lparr>m_clipboard := cs'\<rparr>,
            map (\<lambda>cid. Clipboard cid (DestroyRequest w))
              (filter (\<lambda>cid. m_clipboard s ! cid \<noteq> None \<and>
                 (\<forall>j. i \<le> j \<and> j < cid \<longrightarrow>
                    (\<forall>c. m_clipboard s ! j = Some c \<longrightarrow> \<not> fst (destroyRequest ops w c))))
                 [i..<n])) \<and>
         length cs' = n \<and>
         (\<forall>cid<n. cs' ! cid =
            (if i \<le> cid \<and> (\<forall>j. i \<le> j \<and> j < cid \<longrightarrow>
                    (\<forall>c. m_clipboard s ! j = Some c \<longrightarrow> \<not> fst (destroyRequest ops w c)))
             then map_option (\<lambda>c. snd (destroyRequest ops w c)) (m_clipboard s ! cid)
             else m_clipboard s ! cid))"
  using assms
proof (induction "n - i" arbitrary: i s)
  case 0
  then have "i = n" by simp
  then show ?case using 0 by (intro exI [of _ "m_clipboard s"]) simp
next
  case (Suc k)
  then have lt: "i < n" and k: "k = n - Suc i" and le: "Suc i \<le> n" by simp_all
  have upt: "[i..<n] = i # [Suc i..<n]" using lt by (simp add: upt_conv_Cons)
  let ?hit = "\<lambda>s j. \<forall>c. m_clipboard s ! j = Some c \<longrightarrow> \<not> fst (destroyRequest ops w c)"
  show ?case
  proof (cases "m_clipboard s ! i")
    case None
    from Suc.hyps(1) [OF k Suc.prems(1) le, of ] obtain cs' where
      r: "destroyClipboardRequest_loop ops w [Suc i..<n] s =
           (s\<lparr>m_clipboard := cs'\<rparr>,
            map (\<lambda>cid. Clipboard cid (DestroyRequest w))
              (filter (\<lambda>cid. m_clipboard s ! cid \<noteq> None \<and>
                 (\<forall>j. Suc i \<le> j \<and> j < cid \<longrightarrow> ?hit s j)) [Suc i..<n]))" and
      l: "length cs' = n" and
      e: "\<forall>cid<n. cs' ! cid =
            (if Suc i \<le> cid \<and> (\<forall>j. Suc i \<le> j \<and> j < cid \<longrightarrow> ?hit s j)
             then map_option (\<lambda>c. snd (destroyRequest ops w c)) (m_clipboard s ! cid)
             else m_clipboard s ! cid)"
      by blast
    have q: "(\<forall>j. i \<le> j \<and> j < cid \<longrightarrow> ?hit s j) \<longleftrightarrow> (\<forall>j. Suc i \<le> j \<and> j < cid \<longrightarrow> ?hit s j)" for cid
      using None by (metis Suc_leI le_eq_less_or_eq option.distinct(1) Suc_leD)
    have f: "filter (\<lambda>cid. m_clipboard s ! cid \<noteq> None \<and> (\<forall>j. i \<le> j \<and> j < cid \<longrightarrow> ?hit s j)) [i..<n] =
          filter (\<lambda>cid. m_clipboard s ! cid \<noteq> None \<and> (\<forall>j. Suc i \<le> j \<and> j < cid \<longrightarrow> ?hit s j)) [Suc i..<n]"
      unfolding upt using None by (simp add: q)
    have "\<forall>cid<n. cs' ! cid =
            (if i \<le> cid \<and> (\<forall>j. i \<le> j \<and> j < cid \<longrightarrow> ?hit s j)
             then map_option (\<lambda>c. snd (destroyRequest ops w c)) (m_clipboard s ! cid)
             else m_clipboard s ! cid)"
    proof (intro allI impI)
      fix cid assume "cid < n"
      show "cs' ! cid =
            (if i \<le> cid \<and> (\<forall>j. i \<le> j \<and> j < cid \<longrightarrow> ?hit s j)
             then map_option (\<lambda>c. snd (destroyRequest ops w c)) (m_clipboard s ! cid)
             else m_clipboard s ! cid)"
      proof (cases "cid = i")
        case True
        then show ?thesis using e \<open>cid < n\<close> None by auto
      next
        case False
        then have "i \<le> cid \<longleftrightarrow> Suc i \<le> cid" by auto
        then show ?thesis using e \<open>cid < n\<close> by (simp only: q)
      qed
    qed
    moreover have "destroyClipboardRequest_loop ops w [i..<n] s =
        destroyClipboardRequest_loop ops w [Suc i..<n] s"
      using None by (simp add: upt)
    ultimately show ?thesis
      using r l unfolding f by (intro exI [of _ cs']) (simp only: simp_thms)
  next
    case (Some c)
    obtain b c' where d: "destroyRequest ops w c = (b, c')" by (cases "destroyRequest ops w c")
    show ?thesis
    proof (cases b)
      case True
      have nohit: "\<not> ?hit s i" using Some d True by simp
      have f: "filter (\<lambda>cid. m_clipboard s ! cid \<noteq> None \<and> (\<forall>j. i \<le> j \<and> j < cid \<longrightarrow> ?hit s j)) [i..<n] = [i]"
        unfolding upt using Some nohit by (auto simp: filter_empty_conv)
      have "\<forall>cid<n. (m_clipboard s)[i := Some c'] ! cid =
            (if i \<le> cid \<and> (\<forall>j. i \<le> j \<and> j < cid \<longrightarrow> ?hit s j)
             then map_option (\<lambda>c. snd (destroyRequest ops w c)) (m_clipboard s ! cid)
             else m_clipboard s ! cid)"
      proof (intro allI impI)
        fix cid assume "cid < n"
        show "(m_clipboard s)[i := Some c'] ! cid =
            (if i \<le> cid \<and> (\<forall>j. i \<le> j \<and> j < cid \<longrightarrow> ?hit s j)
             then map_option (\<lambda>c. snd (destroyRequest ops w c)) (m_clipboard s ! cid)
             else m_clipboard s ! cid)"
        proof (cases "cid = i")
          case True
          then show ?thesis using Some d \<open>cid < n\<close> Suc.prems(1) by auto
        next
          case False
          then have "i \<le> cid \<Longrightarrow> i \<le> i \<and> i < cid" by simp
          with nohit have "\<not> (i \<le> cid \<and> (\<forall>j. i \<le> j \<and> j < cid \<longrightarrow> ?hit s j))" by blast
          then have "(if i \<le> cid \<and> (\<forall>j. i \<le> j \<and> j < cid \<longrightarrow> ?hit s j)
             then map_option (\<lambda>c. snd (destroyRequest ops w c)) (m_clipboard s ! cid)
             else m_clipboard s ! cid) = m_clipboard s ! cid"
            by (rule if_not_P)
          moreover have "(m_clipboard s)[i := Some c'] ! cid = m_clipboard s ! cid"
            using False by simp
          ultimately show ?thesis by (simp only:)
        qed
      qed
      moreover have "destroyClipboardRequest_loop ops w [i..<n] s =
          (s\<lparr>m_clipboard := (m_clipboard s)[i := Some c']\<rparr>,
           map (\<lambda>cid. Clipboard cid (DestroyRequest w)) [i])"
        using Some d True by (simp add: upt set_clipboard_def)
      moreover have "length ((m_clipboard s)[i := Some c']) = n"
        using Suc.prems(1) by simp
      ultimately show ?thesis
        unfolding f by (intro exI [of _ "(m_clipboard s)[i := Some c']"]) (simp only: simp_thms)
    next
      case False
      let ?s1 = "set_clipboard i c' s"
      have n1: "n = length (m_clipboard ?s1)" using Suc.prems(1) by simp
      have hit_i: "?hit s i" using Some d False by simp
      have same: "j \<noteq> i \<Longrightarrow> m_clipboard ?s1 ! j = m_clipboard s ! j" for j by simp
      from Suc.hyps(1) [OF k n1 le] obtain cs' where
        r: "destroyClipboardRequest_loop ops w [Suc i..<n] ?s1 =
           (?s1\<lparr>m_clipboard := cs'\<rparr>,
            map (\<lambda>cid. Clipboard cid (DestroyRequest w))
              (filter (\<lambda>cid. m_clipboard ?s1 ! cid \<noteq> None \<and>
                 (\<forall>j. Suc i \<le> j \<and> j < cid \<longrightarrow> ?hit ?s1 j)) [Suc i..<n]))" and
        l: "length cs' = n" and
        e: "\<forall>cid<n. cs' ! cid =
            (if Suc i \<le> cid \<and> (\<forall>j. Suc i \<le> j \<and> j < cid \<longrightarrow> ?hit ?s1 j)
             then map_option (\<lambda>c. snd (destroyRequest ops w c)) (m_clipboard ?s1 ! cid)
             else m_clipboard ?s1 ! cid)"
        by blast
      have q1: "(\<forall>j. Suc i \<le> j \<and> j < cid \<longrightarrow> ?hit ?s1 j) \<longleftrightarrow>
                (\<forall>j. Suc i \<le> j \<and> j < cid \<longrightarrow> ?hit s j)" for cid
        by (metis Suc_n_not_le_n same)
      have q: "(\<forall>j. i \<le> j \<and> j < cid \<longrightarrow> ?hit s j) \<longleftrightarrow> (\<forall>j. Suc i \<le> j \<and> j < cid \<longrightarrow> ?hit s j)" for cid
        using hit_i by (metis Suc_leI le_eq_less_or_eq Suc_leD)
      have f: "filter (\<lambda>cid. m_clipboard s ! cid \<noteq> None \<and> (\<forall>j. i \<le> j \<and> j < cid \<longrightarrow> ?hit s j)) [i..<n] =
          i # filter (\<lambda>cid. m_clipboard ?s1 ! cid \<noteq> None \<and> (\<forall>j. Suc i \<le> j \<and> j < cid \<longrightarrow> ?hit ?s1 j)) [Suc i..<n]"
      proof -
        have pw: "(m_clipboard s ! x \<noteq> None \<and> (\<forall>j. i \<le> j \<and> j < x \<longrightarrow> ?hit s j)) =
                  (m_clipboard ?s1 ! x \<noteq> None \<and> (\<forall>j. Suc i \<le> j \<and> j < x \<longrightarrow> ?hit ?s1 j))"
          if "x \<in> set [Suc i..<n]" for x
        proof -
          from that have "x \<noteq> i" by simp
          then have "m_clipboard ?s1 ! x = m_clipboard s ! x" by (rule same)
          then show ?thesis by (simp only: q q1)
        qed
        define P where "P = (\<lambda>cid. m_clipboard s ! cid \<noteq> None \<and> (\<forall>j. i \<le> j \<and> j < cid \<longrightarrow> ?hit s j))"
        define P1 where "P1 = (\<lambda>cid. m_clipboard ?s1 ! cid \<noteq> None \<and> (\<forall>j. Suc i \<le> j \<and> j < cid \<longrightarrow> ?hit ?s1 j))"
        have here: "P i" unfolding P_def using Some by auto
        have "filter P [Suc i..<n] = filter P1 [Suc i..<n]"
          unfolding P_def P1_def by (rule filter_cong [OF refl]) (rule pw)
        with here have "filter P (i # [Suc i..<n]) = i # filter P1 [Suc i..<n]" by simp
        then show ?thesis unfolding upt P_def P1_def .
      qed
      have "\<forall>cid<n. cs' ! cid =
            (if i \<le> cid \<and> (\<forall>j. i \<le> j \<and> j < cid \<longrightarrow> ?hit s j)
             then map_option (\<lambda>c. snd (destroyRequest ops w c)) (m_clipboard s ! cid)
             else m_clipboard s ! cid)"
      proof (intro allI impI)
        fix cid assume "cid < n"
        show "cs' ! cid =
            (if i \<le> cid \<and> (\<forall>j. i \<le> j \<and> j < cid \<longrightarrow> ?hit s j)
             then map_option (\<lambda>c. snd (destroyRequest ops w c)) (m_clipboard s ! cid)
             else m_clipboard s ! cid)"
        proof (cases "cid = i")
          case True
          then show ?thesis using e \<open>cid < n\<close> Some d Suc.prems(1) by auto
        next
          case False
          then have "i \<le> cid \<longleftrightarrow> Suc i \<le> cid" by auto
          moreover have "m_clipboard ?s1 ! cid = m_clipboard s ! cid" using False by (rule same)
          ultimately show ?thesis using e \<open>cid < n\<close> by (simp only: q q1)
        qed
      qed
      moreover have "destroyClipboardRequest_loop ops w [i..<n] s =
          (s\<lparr>m_clipboard := cs'\<rparr>,
           map (\<lambda>cid. Clipboard cid (DestroyRequest w))
             (i # filter (\<lambda>cid. m_clipboard ?s1 ! cid \<noteq> None \<and>
                 (\<forall>j. Suc i \<le> j \<and> j < cid \<longrightarrow> ?hit ?s1 j)) [Suc i..<n]))"
        using Some d False r by (simp add: upt set_clipboard_twice)
      ultimately show ?thesis
        using l unfolding f by (intro exI [of _ cs']) (simp only: simp_thms)
    qed
  qed
qed

text \<open>
  C4, as amended. On a \<^verbatim>\<open>DestroyNotify\<close> for window \<open>w\<close> the screen calls
  \<^verbatim>\<open>destroyRequest(w)\<close> on the bound clipboards in the order of their ids, up to and
  including the first one that reports success; the clipboards after that one are not
  called and stay as they are. The screen makes no other call on a clipboard and sends
  nothing itself. The event is not marked handled: afterwards the screen saver object and
  then the event handler's \<^verbatim>\<open>onPreDispatch\<close> get it, and the event handler's answer
  is the result.
\<close>

theorem destroy_notify_purges_until_first_success:
  "\<exists>cs'.
     onPreDispatch ops handler (DestroyNotify w) s =
       (handler (DestroyNotify w), s\<lparr>m_clipboard := cs'\<rparr>,
        map (\<lambda>cid. Clipboard cid (DestroyRequest w))
          (filter (\<lambda>cid. m_clipboard s ! cid \<noteq> None \<and>
             (\<forall>j<cid. \<forall>c. m_clipboard s ! j = Some c \<longrightarrow> \<not> fst (destroyRequest ops w c)))
             [0..<kClipboardEnd s]) @
        [ScreenSaverOnPreDispatch (DestroyNotify w), OnPreDispatch (DestroyNotify w)]) \<and>
     length cs' = kClipboardEnd s \<and>
     (\<forall>cid<kClipboardEnd s. cs' ! cid =
        (if \<forall>j<cid. \<forall>c. m_clipboard s ! j = Some c \<longrightarrow> \<not> fst (destroyRequest ops w c)
         then map_option (\<lambda>c. snd (destroyRequest ops w c)) (m_clipboard s ! cid)
         else m_clipboard s ! cid))"
proof -
  from destroyClipboardRequest_loop_from [of "kClipboardEnd s" s 0 ops w]
  obtain cs' where
    r: "destroyClipboardRequest_loop ops w [0..<kClipboardEnd s] s =
           (s\<lparr>m_clipboard := cs'\<rparr>,
            map (\<lambda>cid. Clipboard cid (DestroyRequest w))
              (filter (\<lambda>cid. m_clipboard s ! cid \<noteq> None \<and>
                 (\<forall>j. 0 \<le> j \<and> j < cid \<longrightarrow>
                    (\<forall>c. m_clipboard s ! j = Some c \<longrightarrow> \<not> fst (destroyRequest ops w c))))
                 [0..<kClipboardEnd s]))" and
    l: "length cs' = kClipboardEnd s" and
    e: "\<forall>cid<kClipboardEnd s. cs' ! cid =
            (if 0 \<le> cid \<and> (\<forall>j. 0 \<le> j \<and> j < cid \<longrightarrow>
                    (\<forall>c. m_clipboard s ! j = Some c \<longrightarrow> \<not> fst (destroyRequest ops w c)))
             then map_option (\<lambda>c. snd (destroyRequest ops w c)) (m_clipboard s ! cid)
             else m_clipboard s ! cid)"
    by (auto simp: kClipboardEnd_def)
  have "onPreDispatch ops handler (DestroyNotify w) s =
       (handler (DestroyNotify w), s\<lparr>m_clipboard := cs'\<rparr>,
        map (\<lambda>cid. Clipboard cid (DestroyRequest w))
          (filter (\<lambda>cid. m_clipboard s ! cid \<noteq> None \<and>
             (\<forall>j<cid. \<forall>c. m_clipboard s ! j = Some c \<longrightarrow> \<not> fst (destroyRequest ops w c)))
             [0..<kClipboardEnd s]) @
        [ScreenSaverOnPreDispatch (DestroyNotify w), OnPreDispatch (DestroyNotify w)])"
    using r by (simp add: onPreDispatch_def destroyClipboardRequest_def pass_on_def)
  moreover have "\<forall>cid<kClipboardEnd s. cs' ! cid =
        (if \<forall>j<cid. \<forall>c. m_clipboard s ! j = Some c \<longrightarrow> \<not> fst (destroyRequest ops w c)
         then map_option (\<lambda>c. snd (destroyRequest ops w c)) (m_clipboard s ! cid)
         else m_clipboard s ! cid)"
    using e by simp
  ultimately show ?thesis using l by blast
qed

text \<open>The amended statement at three slots: none, and two channels that each hold a
  request of window 9. Only the first of the two is purged.\<close>

theorem destroy_notify_purges_until_first_success_witness:
  "\<exists>cs'.
     onPreDispatch spec_ops (\<lambda>e. False) (DestroyNotify 9)
       ((CXWindowsScreen_new 3 0)\<lparr>m_clipboard :=
          [None,
           Some \<lparr>channel_id = 1, nativeWindow = 3, selection_atom = 11, ownershipState = Owned,
                 pendingRequests = [\<lparr>ownerWindow = 3, requestorWindow = 9, targetFormat = 4,
                                     timestamp = 100, property = 21\<rparr>],
                 content = None, refusing = False\<rparr>,
           Some \<lparr>channel_id = 2, nativeWindow = 3, selection_atom = 12, ownershipState = Owned,
                 pendingRequests = [\<lparr>ownerWindow = 3, requestorWindow = 9, targetFormat = 4,
                                     timestamp = 101, property = 22\<rparr>],
                 content = None, refusing = False\<rparr>]\<rparr>) =
       (False, (CXWindowsScreen_new 3 0)\<lparr>m_clipboard := cs'\<rparr>,
        [Clipboard 1 (DestroyRequest 9),
         ScreenSaverOnPreDispatch (DestroyNotify 9), OnPreDispatch (DestroyNotify 9)]) \<and>
     cs' ! 0 = None \<and>
     map_option pendingRequests (cs' ! 1) = Some [] \<and>
     map_option pendingRequests (cs' ! 2) =
       Some [\<lparr>ownerWindow = 3, requestorWindow = 9, targetFormat = 4,
              timestamp = 101, property = 22\<rparr>]"
  using destroy_notify_purges_until_first_success [of spec_ops "\<lambda>e. False" 9
       "(CXWindowsScreen_new 3 0)\<lparr>m_clipboard :=
          [None,
           Some \<lparr>channel_id = 1, nativeWindow = 3, selection_atom = 11, ownershipState = Owned,
                 pendingRequests = [\<lparr>ownerWindow = 3, requestorWindow = 9, targetFormat = 4,
                                     timestamp = 100, property = 21\<rparr>],
                 content = None, refusing = False\<rparr>,
           Some \<lparr>channel_id = 2, nativeWindow = 3, selection_atom = 12, ownershipState = Owned,
                 pendingRequests = [\<lparr>ownerWindow = 3, requestorWindow = 9, targetFormat = 4,
                                     timestamp = 101, property = 22\<rparr>],
                 content = None, refusing = False\<rparr>]\<rparr>"]
  by (auto simp: kClipboardEnd_def spec_ops_def CXWindowsScreen_new_def upt_rec [of 0]
      upt_rec [of 1] upt_rec [of 2] All_less_Suc numeral_3_eq_3 numeral_2_eq_2)

text \<open>
  C4 as stated fails: with two bound channels that each hold a request of the destroyed
  window 9, the request on the second channel is still pending after the event.
\<close>

theorem destroy_notify_counterexample:
  "map (map_option (\<lambda>c. map requestorWindow (pendingRequests c)))
     (m_clipboard (fst (snd (onPreDispatch spec_ops (\<lambda>e. False) (DestroyNotify 9)
       ((CXWindowsScreen_new 2 0)\<lparr>m_clipboard :=
          [Some \<lparr>channel_id = 0, nativeWindow = 3, selection_atom = 11, ownershipState = Owned,
                 pendingRequests = [\<lparr>ownerWindow = 3, requestorWindow = 9, targetFormat = 4,
                                     timestamp = 100, property = 21\<rparr>],
                 content = None, refusing = False\<rparr>,
           Some \<lparr>channel_id = 1, nativeWindow = 3, selection_atom = 12, ownershipState = Owned,
                 pendingRequests = [\<lparr>ownerWindow = 3, requestorWindow = 9, targetFormat = 4,
                                     timestamp = 101, property = 22\<rparr>],
                 content = None, refusing = False\<rparr>]\<rparr>))))) =
     [Some [], Some [9]]"
  by (simp add: onPreDispatch_def destroyClipboardRequest_def kClipboardEnd_def spec_ops_def
      CXWindowsScreen_new_def pass_on_def set_clipboard_def upt_rec [of 0] upt_rec [of 1])

subsection \<open>C5: setClipboard with no clipboard\<close>

text \<open>
  C5, as amended. The time fetch is outside this file; by the spec (section 6) and the
  source's comment ("ICCCM does not allow CurrentTime") its answer is never
  \<open>CurrentTime\<close>, which is taken as a hypothesis on the answer for the channel's window.
  For a clipboard id with a bound channel, \<^verbatim>\<open>setClipboard\<close> with a \<open>NULL\<close> clipboard
  opens the channel at the freshly fetched time, which is not \<open>CurrentTime\<close>. When the
  open succeeds it empties the channel, closes it and returns \<^verbatim>\<open>true\<close>; when the open
  fails it returns \<^verbatim>\<open>false\<close> and neither empties nor closes the channel. On the
  channel of the spec: when the backend does not refuse, the call returns \<^verbatim>\<open>true\<close>,
  the channel is unowned and its content cleared, and a \<^verbatim>\<open>getClipboard\<close> right
  afterwards delivers no content; when the backend refuses, the call returns
  \<^verbatim>\<open>false\<close> and the screen is as before.
\<close>

theorem setClipboard_null_relinquishes:
  "(cid < kClipboardEnd s \<and> m_clipboard s ! cid = Some c \<and>
    getCurrentTime (getWindow ops c) \<noteq> CurrentTime \<longrightarrow>
      (\<exists>t opened c'.
         t = getCurrentTime (getWindow ops c) \<and> t \<noteq> CurrentTime \<and>
         open_clipboard ops t c = (opened, c') \<and>
         setClipboard ops getCurrentTime cid None s =
           (if opened
            then Inr (True,
                      set_clipboard cid (close_clipboard ops (empty_clipboard ops c')) s,
                      [GetCurrentTime (getWindow ops c), Clipboard cid (Open t),
                       Clipboard cid Empty, Clipboard cid Close])
            else Inr (False, set_clipboard cid c' s,
                      [GetCurrentTime (getWindow ops c), Clipboard cid (Open t)])))) \<and>
   (cid2 < kClipboardEnd s2 \<and> m_clipboard s2 ! cid2 = Some c2 \<and> \<not> refusing c2 \<and>
    getCurrentTime (nativeWindow c2) \<noteq> CurrentTime \<longrightarrow>
      (\<exists>s3 s4 calls'.
         setClipboard spec_ops getCurrentTime cid2 None s2 =
           Inr (True, s3,
                [GetCurrentTime (nativeWindow c2),
                 Clipboard cid2 (Open (getCurrentTime (nativeWindow c2))),
                 Clipboard cid2 Empty, Clipboard cid2 Close]) \<and>
         map_option ownershipState (m_clipboard s3 ! cid2) = Some Unowned \<and>
         map_option content (m_clipboard s3 ! cid2) = Some None \<and>
         getClipboard spec_ops getCurrentTime cid2 (Some d) s3 =
           Inr (True, None, s4, calls'))) \<and>
   (cid2 < kClipboardEnd s2 \<and> m_clipboard s2 ! cid2 = Some c2 \<and> refusing c2 \<longrightarrow>
      setClipboard spec_ops getCurrentTime cid2 None s2 =
        Inr (False, s2,
             [GetCurrentTime (nativeWindow c2),
              Clipboard cid2 (Open (getCurrentTime (nativeWindow c2)))]))"
proof (intro conjI impI)
  assume h: "cid < kClipboardEnd s \<and> m_clipboard s ! cid = Some c \<and>
    getCurrentTime (getWindow ops c) \<noteq> CurrentTime"
  obtain opened c' where
    o: "open_clipboard ops (getCurrentTime (getWindow ops c)) c = (opened, c')"
    by (cases "open_clipboard ops (getCurrentTime (getWindow ops c)) c")
  have "setClipboard ops getCurrentTime cid None s =
           (if opened
            then Inr (True,
                      set_clipboard cid (close_clipboard ops (empty_clipboard ops c')) s,
                      [GetCurrentTime (getWindow ops c),
                       Clipboard cid (Open (getCurrentTime (getWindow ops c))),
                       Clipboard cid Empty, Clipboard cid Close])
            else Inr (False, set_clipboard cid c' s,
                      [GetCurrentTime (getWindow ops c),
                       Clipboard cid (Open (getCurrentTime (getWindow ops c)))]))"
    using h o by (simp add: setClipboard_def Let_def)
  with h o show "\<exists>t opened c'.
         t = getCurrentTime (getWindow ops c) \<and> t \<noteq> CurrentTime \<and>
         open_clipboard ops t c = (opened, c') \<and>
         setClipboard ops getCurrentTime cid None s =
           (if opened
            then Inr (True,
                      set_clipboard cid (close_clipboard ops (empty_clipboard ops c')) s,
                      [GetCurrentTime (getWindow ops c), Clipboard cid (Open t),
                       Clipboard cid Empty, Clipboard cid Close])
            else Inr (False, set_clipboard cid c' s,
                      [GetCurrentTime (getWindow ops c), Clipboard cid (Open t)]))"
    by blast
next
  assume h: "cid2 < kClipboardEnd s2 \<and> m_clipboard s2 ! cid2 = Some c2 \<and> \<not> refusing c2 \<and>
    getCurrentTime (nativeWindow c2) \<noteq> CurrentTime"
  let ?c3 = "c2\<lparr>ownershipState := Unowned, content := None\<rparr>"
  let ?s3 = "set_clipboard cid2 ?c3 s2"
  have len: "cid2 < length (m_clipboard s2)" using h by (simp add: kClipboardEnd_def)
  have a: "setClipboard spec_ops getCurrentTime cid2 None s2 =
      Inr (True, ?s3, [GetCurrentTime (nativeWindow c2),
              Clipboard cid2 (Open (getCurrentTime (nativeWindow c2))),
              Clipboard cid2 Empty, Clipboard cid2 Close])"
    using h by (simp add: setClipboard_def spec_ops_def Let_def)
  have b: "map_option ownershipState (m_clipboard ?s3 ! cid2) = Some Unowned"
    "map_option content (m_clipboard ?s3 ! cid2) = Some None"
    using len by simp_all
  have c: "getClipboard spec_ops getCurrentTime cid2 (Some d) ?s3 =
      Inr (True, None, set_clipboard cid2 ?c3 ?s3,
           [GetCurrentTime (nativeWindow c2),
            Clipboard cid2 (CopyTo (getCurrentTime (nativeWindow c2)))])"
    using h len by (simp add: getClipboard_def spec_ops_def Let_def)
  from a b c show "\<exists>s3 s4 calls'.
         setClipboard spec_ops getCurrentTime cid2 None s2 =
           Inr (True, s3,
                [GetCurrentTime (nativeWindow c2),
                 Clipboard cid2 (Open (getCurrentTime (nativeWindow c2))),
                 Clipboard cid2 Empty, Clipboard cid2 Close]) \<and>
         map_option ownershipState (m_clipboard s3 ! cid2) = Some Unowned \<and>
         map_option content (m_clipboard s3 ! cid2) = Some None \<and>
         getClipboard spec_ops getCurrentTime cid2 (Some d) s3 =
           Inr (True, None, s4, calls')"
    by blast
next
  assume h: "cid2 < kClipboardEnd s2 \<and> m_clipboard s2 ! cid2 = Some c2 \<and> refusing c2"
  then have "(m_clipboard s2)[cid2 := Some c2] = m_clipboard s2"
    by (metis list_update_id)
  then have "set_clipboard cid2 c2 s2 = s2" by (simp add: set_clipboard_def)
  then show "setClipboard spec_ops getCurrentTime cid2 None s2 =
        Inr (False, s2,
             [GetCurrentTime (nativeWindow c2),
              Clipboard cid2 (Open (getCurrentTime (nativeWindow c2)))])"
    using h by (simp add: setClipboard_def spec_ops_def Let_def)
qed

text \<open>The amended statement on the spec's example: channel 1 holds "hi", is given up at
  time 100, is unowned and empty, and then delivers nothing; and a channel 0 that the
  backend refuses.\<close>

theorem setClipboard_null_relinquishes_witness:
  "setClipboard spec_ops (\<lambda>w. 100) 1 None
     ((CXWindowsScreen_new 2 0)\<lparr>m_clipboard :=
        [None,
         Some \<lparr>channel_id = 1, nativeWindow = 30, selection_atom = 11, ownershipState = Owned,
               pendingRequests = [], content = Some ''hi'', refusing = False\<rparr>]\<rparr>) =
     Inr (True,
       (CXWindowsScreen_new 2 0)\<lparr>m_clipboard :=
        [None,
         Some \<lparr>channel_id = 1, nativeWindow = 30, selection_atom = 11, ownershipState = Unowned,
               pendingRequests = [], content = None, refusing = False\<rparr>]\<rparr>,
       [GetCurrentTime 30, Clipboard 1 (Open 100), Clipboard 1 Empty, Clipboard 1 Close]) \<and>
   (100::nat) \<noteq> CurrentTime \<and>
   (\<exists>s4 calls'.
      getClipboard spec_ops (\<lambda>w. 100) 1 (Some (Some ''old''))
        ((CXWindowsScreen_new 2 0)\<lparr>m_clipboard :=
          [None,
           Some \<lparr>channel_id = 1, nativeWindow = 30, selection_atom = 11, ownershipState = Unowned,
                 pendingRequests = [], content = None, refusing = False\<rparr>]\<rparr>) =
        Inr (True, None, s4, calls')) \<and>
   setClipboard spec_ops (\<lambda>w. 100) 0 None
     ((CXWindowsScreen_new 2 0)\<lparr>m_clipboard :=
        [Some \<lparr>channel_id = 0, nativeWindow = 40, selection_atom = 12, ownershipState = Unowned,
               pendingRequests = [], content = None, refusing = True\<rparr>,
         None]\<rparr>) =
     Inr (False,
       (CXWindowsScreen_new 2 0)\<lparr>m_clipboard :=
        [Some \<lparr>channel_id = 0, nativeWindow = 40, selection_atom = 12, ownershipState = Unowned,
               pendingRequests = [], content = None, refusing = True\<rparr>,
         None]\<rparr>,
       [GetCurrentTime 40, Clipboard 0 (Open 100)])"
  using setClipboard_null_relinquishes [of 1
     "(CXWindowsScreen_new 2 0)\<lparr>m_clipboard :=
        [None,
         Some \<lparr>channel_id = 1, nativeWindow = 30, selection_atom = 11, ownershipState = Owned,
               pendingRequests = [], content = Some ''hi'', refusing = False\<rparr>]\<rparr>"
     "\<lparr>channel_id = 1, nativeWindow = 30, selection_atom = 11, ownershipState = Owned,
               pendingRequests = [], content = Some ''hi'', refusing = False\<rparr>"
     "\<lambda>w. 100" spec_ops 1
     "(CXWindowsScreen_new 2 0)\<lparr>m_clipboard :=
        [None,
         Some \<lparr>channel_id = 1, nativeWindow = 30, selection_atom = 11, ownershipState = Owned,
               pendingRequests = [], content = Some ''hi'', refusing = False\<rparr>]\<rparr>"
     "\<lparr>channel_id = 1, nativeWindow = 30, selection_atom = 11, ownershipState = Owned,
               pendingRequests = [], content = Some ''hi'', refusing = False\<rparr>"
     "Some ''old''"]
    setClipboard_null_relinquishes [of 0
     "(CXWindowsScreen_new 2 0)\<lparr>m_clipboard :=
        [Some \<lparr>channel_id = 0, nativeWindow = 40, selection_atom = 12, ownershipState = Unowned,
               pendingRequests = [], content = None, refusing = True\<rparr>,
         None]\<rparr>"
     "\<lparr>channel_id = 0, nativeWindow = 40, selection_atom = 12, ownershipState = Unowned,
               pendingRequests = [], content = None, refusing = True\<rparr>"
     "\<lambda>w. 100" spec_ops 0
     "(CXWindowsScreen_new 2 0)\<lparr>m_clipboard :=
        [Some \<lparr>channel_id = 0, nativeWindow = 40, selection_atom = 12, ownershipState = Unowned,
               pendingRequests = [], content = None, refusing = True\<rparr>,
         None]\<rparr>"
     "\<lparr>channel_id = 0, nativeWindow = 40, selection_atom = 12, ownershipState = Unowned,
               pendingRequests = [], content = None, refusing = True\<rparr>"
     "Some ''old''"]
  by (auto simp: kClipboardEnd_def CXWindowsScreen_new_def spec_ops_def set_clipboard_def
      CurrentTime_def)

text \<open>
  C5 as stated fails where the open is refused: the call returns \<^verbatim>\<open>false\<close>, the
  channel is neither emptied nor closed, and it is still owned and still holds its content.
\<close>

theorem setClipboard_null_counterexample:
  "setClipboard spec_ops (\<lambda>w. 100) 1 None
     ((CXWindowsScreen_new 2 0)\<lparr>m_clipboard :=
        [None,
         Some \<lparr>channel_id = 1, nativeWindow = 30, selection_atom = 11, ownershipState = Owned,
               pendingRequests = [], content = Some ''hi'', refusing = True\<rparr>]\<rparr>) =
     Inr (False,
       (CXWindowsScreen_new 2 0)\<lparr>m_clipboard :=
        [None,
         Some \<lparr>channel_id = 1, nativeWindow = 30, selection_atom = 11, ownershipState = Owned,
               pendingRequests = [], content = Some ''hi'', refusing = True\<rparr>]\<rparr>,
       [GetCurrentTime 30, Clipboard 1 (Open 100)])"
  by (simp add: setClipboard_def kClipboardEnd_def CXWindowsScreen_new_def spec_ops_def
      set_clipboard_def)

subsection \<open>C7: a clipboard id with no channel\<close>

text \<open>
  C7. For a clipboard id of the array whose entry is \<open>NULL\<close>, \<^verbatim>\<open>setClipboard\<close> (with
  or without a clipboard) and \<^verbatim>\<open>getClipboard\<close> (with a destination, which it asserts)
  both return \<^verbatim>\<open>false\<close>; the screen and the destination are unchanged, no call is
  made on the backend or on any collaborator, and no error is raised.
\<close>

theorem unbound_clipboard_fails_locally:
  "cid < kClipboardEnd s \<Longrightarrow> m_clipboard s ! cid = None \<Longrightarrow>
   setClipboard ops getCurrentTime cid clipboard s = Inr (False, s, []) \<and>
   getClipboard ops getCurrentTime cid (Some d) s = Inr (False, d, s, [])"
  by (simp add: setClipboard_def getClipboard_def)

text \<open>C7 on a freshly constructed screen, which has no channel bound.\<close>

theorem unbound_clipboard_fails_locally_witness:
  "setClipboard spec_ops (\<lambda>w. 100) 1 (Some (Some ''hi''))
     (CXWindowsScreen_new 2 0) = Inr (False, CXWindowsScreen_new 2 0, []) \<and>
   getClipboard spec_ops (\<lambda>w. 100) 1 (Some (Some ''old''))
     (CXWindowsScreen_new 2 0) = Inr (False, Some ''old'', CXWindowsScreen_new 2 0, [])"
  using unbound_clipboard_fails_locally [of 1 "CXWindowsScreen_new 2 0" spec_ops "\<lambda>w. 100"
      "Some (Some ''hi'')" "Some ''old''"]
  by (simp add: kClipboardEnd_def CXWindowsScreen_new_def)

subsection \<open>C8: the I/O error handler\<close>

text \<open>
  C8. The I/O error handler sets the display pointer to \<open>NULL\<close>, then calls the
  receiver's \<^verbatim>\<open>onError\<close> (which sees the \<open>NULL\<close> pointer), then exits the process
  with status 17, which is not 0; it does not return.
\<close>

theorem ioErrorHandler_exits_17:
  "ioErrorHandler s = (s\<lparr>m_display := None\<rparr>, [OnError None], Exits 17) \<and>
   m_display (fst (ioErrorHandler s)) = None \<and>
   snd (snd (ioErrorHandler s)) \<noteq> Exits 0 \<and>
   (\<forall>v. snd (snd (ioErrorHandler s)) \<noteq> Returns v)"
  by (simp add: ioErrorHandler_def)

subsection \<open>C10: the cursor position\<close>

lemma half_1921: "signed_drop_bit (Suc 0) (1921::32 word) = 960"
  by (simp add: word_eq_iff_signed sint_signed_drop_bit_eq drop_bit_Suc)

lemma half_1080: "signed_drop_bit (Suc 0) (1080::32 word) = 540"
  by (simp add: word_eq_iff_signed sint_signed_drop_bit_eq drop_bit_Suc)

lemma sint_half: "sint (signed_drop_bit 1 (w :: 32 word)) = sint w div 2"
  by (simp add: sint_signed_drop_bit_eq drop_bit_Suc)

text \<open>What \<^verbatim>\<open>getCursorPos\<close> does when it is called with the display open and the
  display lock free.\<close>

lemma getCursorPos_cases:
  assumes "m_display s \<noteq> None" and "m_mutex s = 0"
  shows "getCursorPos recursive_mutex query s =
     (case query (m_root s) of
        Some (mx, my) \<Rightarrow> Some (Inr ((mx, my), s))
      | None \<Rightarrow>
          if recursive_mutex
          then Some (Inr ((m_x s + signed_drop_bit 1 (m_w s),
                           m_y s + signed_drop_bit 1 (m_h s)), s))
          else None)"
  using assms
  by (auto simp: getCursorPos_def getCursorCenter_def getRoot_def lock_display_def
      unlock_display_def split: option.splits)

text \<open>
  C10 does not hold of the code. \<^verbatim>\<open>getCursorPos\<close> holds the display lock when the
  pointer query fails and it calls \<^verbatim>\<open>getCursorCenter\<close>, which takes the same lock
  again: with a mutex that is not recursive the call never returns, so no position is
  produced. When the query succeeds the call returns the queried coordinates, and with a
  recursive mutex the failed query gives the centre (960, 540) of the 1921 by 1080 screen.
\<close>

theorem getCursorPos_locks_twice:
  "getCursorPos False (\<lambda>r. None)
     ((CXWindowsScreen_new 2 0 :: unit CXWindowsScreen)
        \<lparr>m_display := Some 7, m_w := 1921, m_h := 1080\<rparr>) = None \<and>
   getCursorPos False (\<lambda>r. Some (15, 20))
     ((CXWindowsScreen_new 2 0 :: unit CXWindowsScreen)
        \<lparr>m_display := Some 7, m_w := 1921, m_h := 1080\<rparr>) =
     Some (Inr ((15, 20),
       (CXWindowsScreen_new 2 0)\<lparr>m_display := Some 7, m_w := 1921, m_h := 1080\<rparr>)) \<and>
   getCursorPos True (\<lambda>r. None)
     ((CXWindowsScreen_new 2 0 :: unit CXWindowsScreen)
        \<lparr>m_display := Some 7, m_w := 1921, m_h := 1080\<rparr>) =
     Some (Inr ((960, 540),
       (CXWindowsScreen_new 2 0)\<lparr>m_display := Some 7, m_w := 1921, m_h := 1080\<rparr>))"
  by (simp add: getCursorPos_def getCursorCenter_def getRoot_def lock_display_def
      unlock_display_def CXWindowsScreen_new_def half_1921 half_1080)

end
